theory Spec2Isabelle
  imports Complex_Main
begin

section \<open>The ROMS native reader: data model\<close>

text \<open>
  A shallow embedding of \<^verbatim>\<open>readers/reader_ROMS_native.py\<close>.  Floating-point numbers are
  modelled as HOL reals, Python integers as \<^typ>\<open>int\<close>, one-dimensional numpy arrays as
  lists, and numpy arrays of higher rank as a shape together with an element function.
  The integer arrays that \<^verbatim>\<open>astype(int)\<close> produces hold signed 64-bit integers; they are
  modelled as \<^typ>\<open>int\<close> with the wrap-around of their arithmetic written out.
  Every exception the source can raise is a value of type \<open>error\<close>.
\<close>

datatype error = ValueError | KeyError | AttributeError | IndexError | WrongDimension

text \<open>The three transform families of the module \<^verbatim>\<open>vgrid\<close>.\<close>

datatype family = s_coordinate | s_coordinate_2 | s_coordinate_4

text \<open>
  A numpy array: its shape and the element stored at each multi-index.  Only the elements
  at multi-indices inside the shape are meaningful.
\<close>

record 'a ndarray =
  shape :: "nat list"
  elem :: "nat list \<Rightarrow> 'a"

definition ndim :: "'a ndarray \<Rightarrow> nat" where
  "ndim a = length (shape a)"

text \<open>
  The netCDF dataset as the reader sees it: each field is one access the source makes, with
  \<open>None\<close> standing for an access that raises.  A variable of the dataset has a rank and a
  value at each tuple of integer indices; what the netCDF library does with an index beyond
  the extent of a variable, and the fill values of a variable, are not part of the model.
  The bottom depth \<^verbatim>\<open>h\<close> is read into a two-dimensional numpy array, which has an
  extent and checks every index against it.
\<close>

record bathymetry =
  h_rows :: nat
  h_cols :: nat
  h_at :: "nat \<Rightarrow> nat \<Rightarrow> real"

record ncvar =
  nc_ndim :: nat
  nc_value :: "int list \<Rightarrow> real"

record dataset =
  var_s_rho :: "real list option"
  dim_s_rho :: "nat option"
  var_Vtransform :: "real option"
  var_Vstretching :: "real option"
  var_theta_s :: "real option"
  var_theta_b :: "real option"
  var_Tcline :: "real option"
  var_lat_rho :: "real ndarray option"
  var_lon_rho :: "real ndarray option"
  var_angle :: "real ndarray option"
  var_ocean_time :: "real list option"
  ocean_time_units :: "string option"
  dim_xi_rho :: "nat option"
  dim_eta_rho :: "nat option"
  var_h :: "bathymetry option"
  var_names :: "string list"
  nc_variables :: "string \<Rightarrow> ncvar option"

record reader =
  name :: string
  Dataset :: dataset
  sigma :: "real list"
  Vtransform :: "real option"
  Vstretching :: "real option"
  s_coord :: family
  theta_s :: real
  theta_b :: real
  Tcline :: real
  num_layers :: nat
  lat :: "real ndarray"
  lon :: "real ndarray"
  angle_between_x_and_east :: "real ndarray"
  times_dec :: "real list"
  start_time :: real
  end_time :: real
  time_step :: "real option"
  xmin :: real
  xmax :: real
  delta_x :: real
  ymin :: real
  ymax :: real
  delta_y :: real
  variables :: "string list"
  sea_floor_depth :: "bathymetry option"
  buffer :: int

text \<open>
  The collaborators that are not part of this file of the repository: opening a dataset,
  decoding the time axis, the constructor of the parent class (which also provides
  \<^verbatim>\<open>self.buffer\<close>), and the sigma transforms of \<^verbatim>\<open>vgrid\<close>, which return the
  depth profile \<^verbatim>\<open>z_r\<close> as one row per layer and one column per query point.
\<close>

record env =
  open_dataset :: "string \<Rightarrow> dataset option"
  num2date :: "real list \<Rightarrow> string \<Rightarrow> real list"
  parent_init :: "reader \<Rightarrow> error + reader"
  vgrid :: "family \<Rightarrow> real list \<Rightarrow> real \<Rightarrow> real \<Rightarrow> real \<Rightarrow> nat \<Rightarrow> real list list"

section \<open>The constructor\<close>

definition ROMS_variable_mapping :: "(string \<times> string) list" where
  "ROMS_variable_mapping =
    [(''mask_psi'', ''land_binary_mask''),
     (''h'', ''sea_floor_depth''),
     (''zeta'', ''sea_surface_height''),
     (''u'', ''x_sea_water_velocity''),
     (''v'', ''y_sea_water_velocity''),
     (''temp'', ''sea_water_temperature''),
     (''salt'', ''sea_water_salinity''),
     (''uice'', ''sea_ice_x_velocity''),
     (''vice'', ''sea_ice_y_velocity''),
     (''aice'', ''sea_ice_area_fraction''),
     (''hice'', ''sea_ice_thickness'')]"

definition zbuffer :: int where
  "zbuffer = 1"

text \<open>\<^verbatim>\<open>(np.arange(num_sigma)+.5-num_sigma)/num_sigma\<close>\<close>

definition synth_sigma :: "nat \<Rightarrow> real list" where
  "synth_sigma n = map (\<lambda>i. (real i + 1/2 - real n) / real n) [0..<n]"

definition read_sigma :: "dataset \<Rightarrow> error + real list" where
  "read_sigma ds =
    (case var_s_rho ds of
       Some s \<Rightarrow> Inr s
     | None \<Rightarrow>
        (case dim_s_rho ds of
           None \<Rightarrow> Inl KeyError
         | Some n \<Rightarrow> Inr (synth_sigma n)))"

text \<open>
  The selection of the transform family.  Any failure while reading the two attributes is
  caught by the source and gives the first family.
\<close>

definition select_family :: "real option \<Rightarrow> real option \<Rightarrow> family" where
  "select_family vt vs =
    (case vt of
       None \<Rightarrow> s_coordinate
     | Some t \<Rightarrow>
        (case vs of
           None \<Rightarrow> s_coordinate
         | Some s \<Rightarrow>
            if t = 1 \<and> s = 1 then s_coordinate
            else if t = 2 \<and> s = 2 then s_coordinate_2
            else if t = 2 \<and> s = 4 then s_coordinate_4
            else s_coordinate))"

text \<open>The stretching parameters \<open>(theta_s, theta_b, Tcline)\<close>, with the defaults of the source.\<close>

definition read_stretching :: "dataset \<Rightarrow> real \<times> real \<times> real" where
  "read_stretching ds =
    (case (var_theta_s ds, var_theta_b ds, var_Tcline ds) of
       (Some ts, Some tb, Some tc) \<Rightarrow> (ts, tb, tc)
     | _ \<Rightarrow> (3, 4/10, 10))"

definition catalogue :: "string list \<Rightarrow> string list" where
  "catalogue names =
    concat (map (\<lambda>v. case map_of ROMS_variable_mapping v of
                        None \<Rightarrow> [] | Some cf \<Rightarrow> [cf]) names)"

text \<open>
  The body of \<^verbatim>\<open>__init__\<close> once the dataset is open, up to the call of the parent
  constructor.  The argument \<open>nm\<close> is the value \<^verbatim>\<open>self.name\<close> has received from the
  arguments, which the body overwrites near its end.  The field \<open>buffer\<close> is not assigned by
  this constructor; it holds 0 until the parent constructor provides it.
\<close>

definition init_fields :: "env \<Rightarrow> string \<Rightarrow> dataset \<Rightarrow> error + reader" where
  "init_fields e nm ds =
    (case read_sigma ds of
       Inl err \<Rightarrow> Inl err
     | Inr sg \<Rightarrow>
    (case read_stretching ds of (ts, tb, tc) \<Rightarrow>
    (case var_lat_rho ds of None \<Rightarrow> Inl KeyError | Some la \<Rightarrow>
    (case var_lon_rho ds of None \<Rightarrow> Inl KeyError | Some lo \<Rightarrow>
    (case var_angle ds of None \<Rightarrow> Inl KeyError | Some an \<Rightarrow>
    (case var_ocean_time ds of None \<Rightarrow> Inl KeyError | Some ot \<Rightarrow>
    (case ocean_time_units ds of None \<Rightarrow> Inl AttributeError | Some un \<Rightarrow>
    (let ti = num2date e ot un in
     if ti = [] then Inl IndexError else
    (case dim_xi_rho ds of None \<Rightarrow> Inl KeyError | Some nx \<Rightarrow>
    (case dim_eta_rho ds of None \<Rightarrow> Inl KeyError | Some ny \<Rightarrow>
      Inr (\<lparr> name = nm,
            Dataset = ds,
            sigma = sg,
            Vtransform = var_Vtransform ds,
            Vstretching = (if var_Vtransform ds = None then None else var_Vstretching ds),
            s_coord = select_family (var_Vtransform ds) (var_Vstretching ds),
            theta_s = ts,
            theta_b = tb,
            Tcline = tc,
            num_layers = length sg,
            lat = la,
            lon = lo,
            angle_between_x_and_east = an,
            times_dec = ti,
            start_time = hd ti,
            end_time = last ti,
            time_step = (if length ti > 1 then Some (ti ! 1 - ti ! 0) else None),
            xmin = 0,
            xmax = real nx - 1,
            delta_x = 1,
            ymin = 0,
            ymax = real ny - 1,
            delta_y = 1,
            variables = catalogue (var_names ds),
            sea_floor_depth = None,
            buffer = 0 \<rparr>\<lparr>name := ''roms native''\<rparr>)))))))))))"

text \<open>
  \<^verbatim>\<open>__init__(self, filename=None, name=None)\<close>.  The name taken from the arguments is
  the display name if given and the file name otherwise; the body overwrites it.
\<close>

definition init :: "env \<Rightarrow> string option \<Rightarrow> string option \<Rightarrow> error + reader" where
  "init e filename nm =
    (case filename of
       None \<Rightarrow> Inl ValueError
     | Some fn \<Rightarrow>
        (case open_dataset e fn of
           None \<Rightarrow> Inl ValueError
         | Some ds \<Rightarrow>
            (case init_fields e (case nm of None \<Rightarrow> fn | Some n \<Rightarrow> n) ds of
               Inl err \<Rightarrow> Inl err
             | Inr r \<Rightarrow> parent_init e r)))"

section \<open>numpy and bisect helpers\<close>

text \<open>\<^verbatim>\<open>a.min()\<close> and \<^verbatim>\<open>a.max()\<close> raise on an empty array.\<close>

fun np_min :: "real list \<Rightarrow> error + real" where
  "np_min [] = Inl ValueError"
| "np_min (v # vs) = Inr (fold min vs v)"

fun np_max :: "real list \<Rightarrow> error + real" where
  "np_max [] = Inl ValueError"
| "np_max (v # vs) = Inr (fold max vs v)"

fun int_min :: "int list \<Rightarrow> error + int" where
  "int_min [] = Inl ValueError"
| "int_min (v # vs) = Inr (fold min vs v)"

fun int_max :: "int list \<Rightarrow> error + int" where
  "int_max [] = Inl ValueError"
| "int_max (v # vs) = Inr (fold max vs v)"

text \<open>Applying a fallible function to every element; the first error wins.\<close>

primrec mapE :: "('a \<Rightarrow> error + 'b) \<Rightarrow> 'a list \<Rightarrow> error + 'b list" where
  "mapE f [] = Inr []"
| "mapE f (v # vs) =
    (case f v of
       Inl e \<Rightarrow> Inl e
     | Inr w \<Rightarrow> (case mapE f vs of Inl e \<Rightarrow> Inl e | Inr ws \<Rightarrow> Inr (w # ws)))"

text \<open>
  The value of a signed 64-bit integer operation whose exact result is \<open>k\<close>.
\<close>

definition int64 :: "int \<Rightarrow> int" where
  "int64 k = (k + 2 ^ 63) mod 2 ^ 64 - 2 ^ 63"

text \<open>
  \<^verbatim>\<open>a.astype(int)\<close> on a float: the value is cut towards zero when that fits a signed
  64-bit integer; every other float is cast to \<open>- 2 ^ 63\<close>.
\<close>

definition astype_int :: "real \<Rightarrow> int" where
  "astype_int v =
    (if - (2 ^ 63) \<le> v \<and> v < 2 ^ 63 then (if 0 \<le> v then \<lfloor>v\<rfloor> else \<lceil>v\<rceil>)
     else - (2 ^ 63))"

text \<open>
  An index into an axis of length \<open>n\<close> of a numpy array: numpy wraps a negative index once
  and raises beyond the axis.
\<close>

definition in_axis :: "nat \<Rightarrow> int \<Rightarrow> bool" where
  "in_axis n k = (- int n \<le> k \<and> k < int n)"

definition wrap :: "nat \<Rightarrow> int \<Rightarrow> nat" where
  "wrap n k = nat (if k < 0 then k + int n else k)"

text \<open>\<^verbatim>\<open>np.arange(a, b)\<close> on integers: \<open>a, a+1, ..., b-1\<close>.\<close>

definition np_arange :: "int \<Rightarrow> int \<Rightarrow> int list" where
  "np_arange a b = [a..b - 1]"

text \<open>
  \<^verbatim>\<open>bisect.bisect_left(a, x)\<close>: the loop of the standard library, on the whole list.
\<close>

function bisect_loop :: "real list \<Rightarrow> real \<Rightarrow> nat \<Rightarrow> nat \<Rightarrow> nat" where
  "bisect_loop a v lo hi =
    (if lo < hi then
       (let mid = (lo + hi) div 2 in
        if a ! mid < v then bisect_loop a v (mid + 1) hi
        else bisect_loop a v lo mid)
     else lo)"
  by pat_completeness auto
termination
  by (relation "measure (\<lambda>(a, v, lo, hi). hi - lo)") auto

declare bisect_loop.simps [simp del]

definition bisect_left :: "real list \<Rightarrow> real \<Rightarrow> nat" where
  "bisect_left a v = bisect_loop a v 0 (length a)"

section \<open>Vertical layer range\<close>

text \<open>
  The two bounds of the general depth search, from the layer profiles and the smallest and
  largest requested depth.  \<open>nsig\<close> is \<^verbatim>\<open>len(self.sigma)\<close> and \<open>zb\<close> the
  vertical buffer, which the source takes from the class attribute \<^verbatim>\<open>zbuffer\<close>.
\<close>

definition zmins_of :: "real list list \<Rightarrow> error + real list" where
  "zmins_of z_profiles = mapE np_min z_profiles"

definition zmaxs_of :: "real list list \<Rightarrow> error + real list" where
  "zmaxs_of z_profiles = mapE np_max z_profiles"

definition indz_min_of :: "int \<Rightarrow> real list \<Rightarrow> real \<Rightarrow> int" where
  "indz_min_of zb zmaxs zlo = max 0 (int (bisect_left zmaxs zlo) - zb - 1)"

definition indz_max_of :: "int \<Rightarrow> nat \<Rightarrow> real list \<Rightarrow> real \<Rightarrow> int" where
  "indz_max_of zb nsig zmins zhi = min (int nsig - 1) (int (bisect_left zmins zhi) + zb + 1)"

definition depth_search :: "nat \<Rightarrow> real list list \<Rightarrow> real \<Rightarrow> real \<Rightarrow> error + int \<times> int" where
  "depth_search nsig z_profiles zlo zhi =
    (case zmins_of z_profiles of
       Inl e \<Rightarrow> Inl e
     | Inr zmins \<Rightarrow>
        (case zmaxs_of z_profiles of
           Inl e \<Rightarrow> Inl e
         | Inr zmaxs \<Rightarrow>
            Inr (indz_min_of zbuffer zmaxs zlo, indz_max_of zbuffer nsig zmins zhi)))"

text \<open>
  The query as \<^verbatim>\<open>check_arguments\<close> and \<^verbatim>\<open>nearest_time\<close> hand it over: the
  requested names, the coordinates, the index array \<^verbatim>\<open>outside[0]\<close> of the points
  flagged outside the domain, the nearest time and its index.
\<close>

record query =
  requested_variables :: "string list"
  qx :: "real list"
  qy :: "real list"
  qz :: "real list"
  outside0 :: "nat list"
  nearestTime :: real
  indxTime :: int

text \<open>\<^verbatim>\<open>indz\<close> is one layer on the surface path and a range of layers otherwise.\<close>

datatype layer_index = Layer int | Layers "int list"

datatype zvalue = ZEcho "real list" | ZProfile "real list list"

text \<open>The lazily cached bottom depth.\<close>

definition load_sea_floor_depth :: "reader \<Rightarrow> error + reader" where
  "load_sea_floor_depth r =
    (case sea_floor_depth r of
       Some h \<Rightarrow> Inr r
     | None \<Rightarrow>
        (case var_h (Dataset r) of
           None \<Rightarrow> Inl KeyError
         | Some h \<Rightarrow> Inr (r\<lparr>sea_floor_depth := Some h\<rparr>)))"

text \<open>
  \<^verbatim>\<open>self.sea_floor_depth[indy, indx]\<close>: a numpy array pairs the two index arrays,
  broadcasting one of length 1, and checks every index unless the selection is empty.
\<close>

definition pair_index :: "bathymetry \<Rightarrow> int list \<Rightarrow> int list \<Rightarrow> error + real list" where
  "pair_index h indy indx =
    (if \<not> (length indy = length indx \<or> length indx = 1 \<or> length indy = 1) then Inl IndexError
     else if indy \<noteq> [] \<and> indx \<noteq> [] \<and>
             \<not> (list_all (in_axis (h_rows h)) indy \<and> list_all (in_axis (h_cols h)) indx)
       then Inl IndexError
     else if length indy = length indx then
       Inr (map2 (\<lambda>j i. h_at h (wrap (h_rows h) j) (wrap (h_cols h) i)) indy indx)
     else if length indx = 1 then
       Inr (map (\<lambda>j. h_at h (wrap (h_rows h) j) (wrap (h_cols h) (hd indx))) indy)
     else
       Inr (map (\<lambda>i. h_at h (wrap (h_rows h) (hd indy)) (wrap (h_cols h) i)) indx))"

text \<open>\<^verbatim>\<open>z_profiles[indz,:]\<close> for a range of non-negative layer indices.\<close>

definition take_rows :: "real list list \<Rightarrow> int list \<Rightarrow> error + real list list" where
  "take_rows z_profiles ks =
    (if list_all (\<lambda>k. - int (length z_profiles) \<le> k \<and> k < int (length z_profiles)) ks
     then Inr (map (\<lambda>k. z_profiles ! nat (if k < 0 then k + int (length z_profiles) else k)) ks)
     else Inl IndexError)"

definition general_depth ::
  "env \<Rightarrow> reader \<Rightarrow> int list \<Rightarrow> int list \<Rightarrow> real \<Rightarrow> real \<Rightarrow> error + layer_index \<times> zvalue" where
  "general_depth e r indx indy zlo zhi =
    (case sea_floor_depth r of
       None \<Rightarrow> Inl KeyError
     | Some h \<Rightarrow>
    (case pair_index h indy indx of
       Inl err \<Rightarrow> Inl err
     | Inr depth_at_elements \<Rightarrow>
    (let z_profiles = vgrid e (s_coord r) depth_at_elements (theta_b r) (theta_s r)
                        (Tcline r) (length (sigma r)) in
     case depth_search (length (sigma r)) z_profiles zlo zhi of
       Inl err \<Rightarrow> Inl err
     | Inr (indz_min, indz_max) \<Rightarrow>
        (let indz = np_arange indz_min (indz_max + 1) in
         case take_rows z_profiles indz of
           Inl err \<Rightarrow> Inl err
         | Inr zs \<Rightarrow> Inr (Layers indz, ZProfile zs)))))"

text \<open>
  The vertical part of \<^verbatim>\<open>get_variables\<close>: the reader after the call (the cache may have
  been filled) and the layer index with the \<^verbatim>\<open>z\<close> entry of the result.
\<close>

definition vertical ::
  "env \<Rightarrow> reader \<Rightarrow> int list \<Rightarrow> int list \<Rightarrow> real list \<Rightarrow> reader \<times> (error + layer_index \<times> zvalue)" where
  "vertical e r indx indy z =
    (case np_min z of
       Inl err \<Rightarrow> (r, Inl err)
     | Inr zlo \<Rightarrow>
        if zlo = 0 then (r, Inr (Layer (int (num_layers r) - 1), ZEcho z))
        else
          (case load_sea_floor_depth r of
             Inl err \<Rightarrow> (r, Inl err)
           | Inr r' \<Rightarrow>
              (case np_max z of
                 Inl err \<Rightarrow> (r', Inl err)
               | Inr zhi \<Rightarrow> (r', general_depth e r' indx indy zlo zhi))))"

section \<open>Horizontal indices\<close>

text \<open>
  \<^verbatim>\<open>np.floor((x-self.xmin)/self.delta_x).astype(int)\<close> at one coordinate.  A division by
  zero gives an infinity or a NaN, which the cast sends to \<open>- 2 ^ 63\<close> as well.
\<close>

definition floor_index :: "real \<Rightarrow> real \<Rightarrow> real \<Rightarrow> int" where
  "floor_index lo d c =
    (if d = 0 then - (2 ^ 63) else astype_int (of_int \<lfloor>(c - lo) / d\<rfloor>))"

text \<open>
  Block mode: \<^verbatim>\<open>np.arange(np.max([0, ind.min()-buffer]), np.min([ind.max()+buffer, dim]))\<close>,
  where the two sums are taken in 64-bit arithmetic.
\<close>

definition block_range :: "int \<Rightarrow> int \<Rightarrow> int list \<Rightarrow> error + int list" where
  "block_range buf extent ind =
    (case int_min ind of
       Inl err \<Rightarrow> Inl err
     | Inr lo \<Rightarrow>
        (case int_max ind of
           Inl err \<Rightarrow> Inl err
         | Inr hi \<Rightarrow>
            Inr (np_arange (max 0 (int64 (lo - buf))) (min (int64 (hi + buf)) extent))))"

text \<open>\<^verbatim>\<open>a.shape[k]\<close>\<close>

definition shape_at :: "'a ndarray \<Rightarrow> nat \<Rightarrow> error + int" where
  "shape_at a k = (if k < length (shape a) then Inr (int (shape a ! k)) else Inl IndexError)"

text \<open>
  Point mode: \<^verbatim>\<open>ind[outside[0]] = 0\<close>.  numpy checks every index before it writes.
\<close>

definition assign_at :: "nat list \<Rightarrow> 'a \<Rightarrow> 'a list \<Rightarrow> error + 'a list" where
  "assign_at ks v xs =
    (if list_all (\<lambda>k. k < length xs) ks then Inr (fold (\<lambda>k ys. ys[k := v]) ks xs)
     else Inl IndexError)"

definition horizontal ::
  "reader \<Rightarrow> bool \<Rightarrow> nat list \<Rightarrow> int list \<Rightarrow> int list \<Rightarrow> error + int list \<times> int list" where
  "horizontal r block outs indx indy =
    (if block then
       (case int_min indx of Inl err \<Rightarrow> Inl err | Inr _ \<Rightarrow>
       (case shape_at (lon r) 1 of Inl err \<Rightarrow> Inl err | Inr nx \<Rightarrow>
       (case block_range (buffer r) nx indx of Inl err \<Rightarrow> Inl err | Inr bx \<Rightarrow>
       (case int_min indy of Inl err \<Rightarrow> Inl err | Inr _ \<Rightarrow>
       (case shape_at (lon r) 0 of Inl err \<Rightarrow> Inl err | Inr ny \<Rightarrow>
       (case block_range (buffer r) ny indy of Inl err \<Rightarrow> Inl err | Inr by \<Rightarrow>
          Inr (bx, by)))))))
     else
       (case assign_at outs 0 indx of Inl err \<Rightarrow> Inl err | Inr px \<Rightarrow>
       (case assign_at outs 0 indy of Inl err \<Rightarrow> Inl err | Inr py \<Rightarrow>
          Inr (px, py))))"

section \<open>Extraction of the variables\<close>

record 'a masked =
  ma_data :: "'a ndarray"
  ma_mask :: "bool ndarray"

datatype coords = Indices "int list" | Coordinates "real list"

record result =
  res_variables :: "string \<Rightarrow> real masked option"
  res_z :: zvalue
  res_angle :: "real ndarray"
  res_x :: coords
  res_y :: coords
  res_time :: real

text \<open>
  Indexing a netCDF variable with index arrays is orthogonal: the result has one axis per
  index array.  \<open>f\<close> is the variable with its leading scalar indices already applied.
\<close>

definition orth2 :: "(int list \<Rightarrow> real) \<Rightarrow> int list \<Rightarrow> int list \<Rightarrow> real ndarray" where
  "orth2 f indy indx =
    \<lparr> shape = [length indy, length indx],
      elem = (\<lambda>i. f [indy ! (i ! 0), indx ! (i ! 1)]) \<rparr>"

definition orth3 :: "(int list \<Rightarrow> real) \<Rightarrow> int list \<Rightarrow> int list \<Rightarrow> int list \<Rightarrow> real ndarray" where
  "orth3 f indz indy indx =
    \<lparr> shape = [length indz, length indy, length indx],
      elem = (\<lambda>i. f [indz ! (i ! 0), indy ! (i ! 1), indx ! (i ! 2)]) \<rparr>"

text \<open>The dispatch on the rank of the variable.\<close>

definition fetch :: "ncvar \<Rightarrow> int \<Rightarrow> layer_index \<Rightarrow> int list \<Rightarrow> int list \<Rightarrow> error + real ndarray" where
  "fetch var t indz indy indx =
    (if nc_ndim var = 2 then Inr (orth2 (nc_value var) indy indx)
     else if nc_ndim var = 3 then Inr (orth2 (\<lambda>i. nc_value var (t # i)) indy indx)
     else if nc_ndim var = 4 then
       (case indz of
          Layer k \<Rightarrow> Inr (orth2 (\<lambda>i. nc_value var (t # k # i)) indy indx)
        | Layers ks \<Rightarrow> Inr (orth3 (\<lambda>i. nc_value var (t # i)) ks indy indx))
     else Inl WrongDimension)"

text \<open>
  \<^verbatim>\<open>a.diagonal()\<close> on an array of rank at least 2: the first two axes are replaced by
  their diagonal, which becomes the last axis.
\<close>

definition diagonal :: "'a ndarray \<Rightarrow> 'a ndarray" where
  "diagonal a =
    \<lparr> shape = drop 2 (shape a) @ [min (shape a ! 0) (shape a ! 1)],
      elem = (\<lambda>i. elem a (last i # last i # butlast i)) \<rparr>"

text \<open>\<^verbatim>\<open>np.ma.array(a, ndmin=2, mask=False)\<close>: axes of length 1 are prepended.\<close>

definition ma_array :: "'a ndarray \<Rightarrow> 'a masked" where
  "ma_array a =
    \<lparr> ma_data = \<lparr> shape = replicate (2 - ndim a) 1 @ shape a,
                  elem = (\<lambda>i. elem a (drop (2 - ndim a) i)) \<rparr>,
      ma_mask = \<lparr> shape = replicate (2 - ndim a) 1 @ shape a,
                  elem = (\<lambda>i. False) \<rparr> \<rparr>"

text \<open>
  \<^verbatim>\<open>m.mask[ks] = True\<close>: an index array selects along the first axis of the mask.
\<close>

definition mask_rows :: "nat list \<Rightarrow> 'a masked \<Rightarrow> error + 'a masked" where
  "mask_rows ks m =
    (if shape (ma_mask m) = [] then Inl IndexError
     else if list_all (\<lambda>k. k < hd (shape (ma_mask m))) ks then
       Inr (m\<lparr>ma_mask := \<lparr> shape = shape (ma_mask m),
                            elem = (\<lambda>i. hd i \<in> set ks \<or> elem (ma_mask m) i) \<rparr>\<rparr>)
     else Inl IndexError)"

text \<open>The reverse lookup of the source name of a standard name.\<close>

definition lookup_varname :: "string \<Rightarrow> error + string" where
  "lookup_varname par =
    (case filter (\<lambda>(nm, cf). cf = par) ROMS_variable_mapping of
       [] \<Rightarrow> Inl IndexError
     | (nm, cf) # _ \<Rightarrow> Inr nm)"

text \<open>One round of the loop over the requested variables.\<close>

definition extract_variable ::
  "reader \<Rightarrow> query \<Rightarrow> bool \<Rightarrow> layer_index \<Rightarrow> int list \<Rightarrow> int list \<Rightarrow> string \<Rightarrow> error + real masked" where
  "extract_variable r q block indz indy indx par =
    (case lookup_varname par of Inl err \<Rightarrow> Inl err | Inr nm \<Rightarrow>
    (case nc_variables (Dataset r) nm of None \<Rightarrow> Inl KeyError | Some var \<Rightarrow>
    (case fetch var (indxTime q) indz indy indx of Inl err \<Rightarrow> Inl err | Inr a \<Rightarrow>
    (let d = (if ndim a > 1 \<and> \<not> block then diagonal a else a);
         m = ma_array d
     in if block then Inr m else mask_rows (outside0 q) m))))"

primrec extract_all ::
  "(string \<Rightarrow> error + real masked) \<Rightarrow> string list \<Rightarrow> (string \<Rightarrow> real masked option)
    \<Rightarrow> error + (string \<Rightarrow> real masked option)" where
  "extract_all f [] vars = Inr vars"
| "extract_all f (par # pars) vars =
    (case f par of
       Inl err \<Rightarrow> Inl err
     | Inr m \<Rightarrow> extract_all f pars (vars(par \<mapsto> m)))"

text \<open>
  \<^verbatim>\<open>np.degrees(angle[np.meshgrid(indy, indx)])\<close>: the numpy array is indexed with the
  two mesh arrays, whose entry \<open>(i, j)\<close> is \<open>(indy[j], indx[i])\<close>.
\<close>

definition degrees :: "real \<Rightarrow> real" where
  "degrees v = v * 180 / pi"

definition angle_at :: "real ndarray \<Rightarrow> int list \<Rightarrow> int list \<Rightarrow> error + real ndarray" where
  "angle_at an indy indx =
    (if ndim an < 2 then Inl IndexError
     else if indy \<noteq> [] \<and> indx \<noteq> [] \<and>
             \<not> (list_all (in_axis (shape an ! 0)) indy \<and> list_all (in_axis (shape an ! 1)) indx)
       then Inl IndexError
     else Inr \<lparr> shape = [length indx, length indy] @ drop 2 (shape an),
                elem = (\<lambda>i. degrees (elem an (wrap (shape an ! 0) (indy ! (i ! 1)) #
                                               wrap (shape an ! 1) (indx ! (i ! 0)) #
                                               drop 2 i))) \<rparr>)"

text \<open>
  \<^verbatim>\<open>1 - variables['land_binary_mask']\<close>: the subtraction of masked arrays keeps the
  mask and, at a masked entry, stores the data of its first operand, which is 1 here.
\<close>

definition invert :: "real masked \<Rightarrow> real masked" where
  "invert m =
    m\<lparr>ma_data := \<lparr> shape = shape (ma_data m),
                      elem = (\<lambda>i. if elem (ma_mask m) i then 1 else 1 - elem (ma_data m) i) \<rparr>\<rparr>"

definition invert_land_mask :: "(string \<Rightarrow> real masked option) \<Rightarrow> (string \<Rightarrow> real masked option)" where
  "invert_land_mask vars =
    (case vars ''land_binary_mask'' of
       None \<Rightarrow> vars
     | Some m \<Rightarrow> vars(''land_binary_mask'' \<mapsto> invert m))"

text \<open>
  \<^verbatim>\<open>self.xmin + (indx-1)*self.delta_x\<close>, where \<^verbatim>\<open>indx-1\<close> is taken in 64-bit
  arithmetic.
\<close>

definition point_coords :: "real \<Rightarrow> real \<Rightarrow> int list \<Rightarrow> real list" where
  "point_coords lo d ind = map (\<lambda>i. lo + real_of_int (int64 (i - 1)) * d) ind"

text \<open>Everything after the vertical part.\<close>

definition finish ::
  "reader \<Rightarrow> query \<Rightarrow> bool \<Rightarrow> layer_index \<Rightarrow> zvalue \<Rightarrow> int list \<Rightarrow> int list \<Rightarrow> error + result" where
  "finish r q block indz zv indx0 indy0 =
    (case horizontal r block (outside0 q) indx0 indy0 of Inl err \<Rightarrow> Inl err | Inr (indx, indy) \<Rightarrow>
    (case extract_all (extract_variable r q block indz indy indx) (requested_variables q) Map.empty of
       Inl err \<Rightarrow> Inl err | Inr vars \<Rightarrow>
    (case angle_at (angle_between_x_and_east r) indy indx of Inl err \<Rightarrow> Inl err | Inr an \<Rightarrow>
       Inr \<lparr> res_variables = invert_land_mask vars,
             res_z = zv,
             res_angle = an,
             res_x = (if block then Indices indx else Coordinates (point_coords (xmin r) (delta_x r) indx)),
             res_y = (if block then Indices indy else Coordinates (point_coords (ymin r) (delta_y r) indy)),
             res_time = nearestTime q \<rparr>)))"

text \<open>
  \<^verbatim>\<open>get_variables\<close> on a normalised query: the reader after the call and the result or
  the exception.
\<close>

definition get_variables :: "env \<Rightarrow> reader \<Rightarrow> query \<Rightarrow> bool \<Rightarrow> reader \<times> (error + result)" where
  "get_variables e r q block =
    (let indx = map (floor_index (xmin r) (delta_x r)) (qx q);
         indy = map (floor_index (ymin r) (delta_y r)) (qy q)
     in case vertical e r indx indy (qz q) of
          (r', Inl err) \<Rightarrow> (r', Inl err)
        | (r', Inr (indz, zv)) \<Rightarrow> (r', finish r' q block indz zv indx indy))"

section \<open>A small dataset\<close>

text \<open>
  A grid of 10 by 10 cells with five layers and a bottom depth of 100 everywhere, without
  explicit layer centres and with a pair of transform attributes the reader does not know.
  The stand-in for the sigma transform places layer \<open>k\<close> of \<open>N\<close> at the fraction
  \<open>(k + 1/2 - N) / N\<close> of the bottom depth.
\<close>

definition example_grid :: "real ndarray" where
  "example_grid = \<lparr> shape = [10, 10], elem = (\<lambda>i. 0) \<rparr>"

definition example_variables :: "string \<Rightarrow> ncvar option" where
  "example_variables nm =
    (if nm = ''mask_psi'' then Some \<lparr> nc_ndim = 2, nc_value = (\<lambda>i. 1) \<rparr>
     else if nm = ''zeta'' then Some \<lparr> nc_ndim = 3, nc_value = (\<lambda>i. real_of_int (i ! 2)) \<rparr>
     else if nm = ''temp'' then Some \<lparr> nc_ndim = 4, nc_value = (\<lambda>i. real_of_int (i ! 1)) \<rparr>
     else None)"

definition example_dataset :: dataset where
  "example_dataset =
    \<lparr> var_s_rho = None,
      dim_s_rho = Some 5,
      var_Vtransform = Some 2,
      var_Vstretching = Some 3,
      var_theta_s = None,
      var_theta_b = None,
      var_Tcline = None,
      var_lat_rho = Some example_grid,
      var_lon_rho = Some example_grid,
      var_angle = Some example_grid,
      var_ocean_time = Some [0, 3600],
      ocean_time_units = Some ''seconds since 1970-01-01'',
      dim_xi_rho = Some 10,
      dim_eta_rho = Some 10,
      var_h = Some \<lparr> h_rows = 10, h_cols = 10, h_at = (\<lambda>j i. 100) \<rparr>,
      var_names = [''mask_psi'', ''zeta'', ''temp'', ''lat_rho''],
      nc_variables = example_variables \<rparr>"

definition example_vgrid :: "family \<Rightarrow> real list \<Rightarrow> real \<Rightarrow> real \<Rightarrow> real \<Rightarrow> nat \<Rightarrow> real list list" where
  "example_vgrid fam h tb ts tc N =
    map (\<lambda>k. map (\<lambda>d. d * ((real k + 1/2 - real N) / real N)) h) [0..<N]"

definition example_env :: env where
  "example_env =
    \<lparr> open_dataset = (\<lambda>fn. if fn = ''roms.nc'' then Some example_dataset else None),
      num2date = (\<lambda>ts un. ts),
      parent_init = (\<lambda>r. Inr (r\<lparr>buffer := 2\<rparr>)),
      vgrid = example_vgrid \<rparr>"

definition example_reader :: reader where
  "example_reader = projr (init example_env (Some ''roms.nc'') (Some ''my reader''))"

definition example_fields :: reader where
  "example_fields = projr (init_fields example_env ''my reader'' example_dataset)"

definition example_query :: query where
  "example_query =
    \<lparr> requested_variables = [''land_binary_mask'', ''sea_water_temperature''],
      qx = [3/2, 7],
      qy = [5/2, 4],
      qz = [0, 0],
      outside0 = [],
      nearestTime = 0,
      indxTime = 0 \<rparr>"

definition example_result :: result where
  "example_result = projr (snd (get_variables example_env example_reader example_query False))"

definition example_block :: result where
  "example_block = projr (snd (get_variables example_env example_reader example_query True))"

text \<open>The same query for the temperature at a depth of 50 under the surface.\<close>

definition example_deep_query :: query where
  "example_deep_query =
    example_query\<lparr>requested_variables := [''sea_water_temperature''], qz := [- 50, - 50]\<rparr>"

definition example_deep :: result where
  "example_deep = projr (snd (get_variables example_env example_reader example_deep_query False))"

text \<open>
  Two point queries with one point east of the grid, flagged by the normaliser: the first
  point in one query, the second point in the other.
\<close>

definition example_first_outside :: query where
  "example_first_outside = example_query\<lparr>qx := [12, 7], outside0 := [0]\<rparr>"

definition example_second_outside :: query where
  "example_second_outside = example_query\<lparr>qx := [3/2, 12], outside0 := [1]\<rparr>"

text \<open>A request for the temperature close to the bottom, under the deepest layer centre.\<close>

definition example_bottom_query :: query where
  "example_bottom_query = example_deep_query\<lparr>qz := [- 95, - 95]\<rparr>"

definition example_bottom :: result where
  "example_bottom = projr (snd (get_variables example_env example_reader example_bottom_query False))"

text \<open>A block request with one coordinate far beyond the range of a 64-bit integer.\<close>

definition example_far_query :: query where
  "example_far_query = example_query\<lparr>qx := [10 ^ 30, 5]\<rparr>"

definition example_far :: result where
  "example_far = projr (snd (get_variables example_env example_reader example_far_query True))"


text \<open>
  The same grid with nine layers and a bottom depth of 90, whose layer centres are
  \<open>-85, -75, ..., -5\<close>, and a request for two depths between the centres.
\<close>

definition nine_dataset :: dataset where
  "nine_dataset =
    example_dataset\<lparr>dim_s_rho := Some 9,
                    var_h := Some \<lparr> h_rows = 10, h_cols = 10, h_at = (\<lambda>j i. 90) \<rparr>\<rparr>"

definition nine_env :: env where
  "nine_env = example_env\<lparr>open_dataset := (\<lambda>fn. Some nine_dataset)\<rparr>"

definition nine_reader :: reader where
  "nine_reader = projr (init nine_env (Some ''roms9.nc'') None)"

definition nine_query :: query where
  "nine_query = example_deep_query\<lparr>qz := [- 45, - 42]\<rparr>"

definition nine_result :: result where
  "nine_result = projr (snd (get_variables nine_env nine_reader nine_query False))"

section \<open>Properties of the constructor\<close>

lemma init_fields_InrD:
  assumes "init_fields e nm ds = Inr r"
  shows "name r = ''roms native''"
    and "s_coord r = select_family (var_Vtransform ds) (var_Vstretching ds)"
    and "\<exists>sg. read_sigma ds = Inr sg \<and> sigma r = sg"
  using assms
  by (auto simp: init_fields_def Let_def split: sum.splits option.splits prod.splits if_splits)

lemma read_sigma_attrs [simp]:
  "read_sigma (ds\<lparr>var_Vtransform := vt, var_Vstretching := vs\<rparr>) = read_sigma ds"
  "read_stretching (ds\<lparr>var_Vtransform := vt, var_Vstretching := vs\<rparr>) = read_stretching ds"
  by (simp_all add: read_sigma_def read_stretching_def split: option.splits)

lemma init_fields_isl_attrs:
  "isl (init_fields e nm (ds\<lparr>var_Vtransform := vt, var_Vstretching := vs\<rparr>)) = isl (init_fields e nm ds)"
  by (auto simp: init_fields_def Let_def split: sum.splits option.splits prod.splits if_splits)

lemma synth_sigma_length [simp]: "length (synth_sigma n) = n"
  by (simp add: synth_sigma_def)

lemma synth_sigma_nth: "i < n \<Longrightarrow> synth_sigma n ! i = (real i + 1/2 - real n) / real n"
  by (simp add: synth_sigma_def)

lemma synth_sigma_strict: "sorted_wrt (<) (synth_sigma n)"
  unfolding sorted_wrt_iff_nth_less
  by (auto simp: synth_sigma_nth divide_strict_right_mono)

lemma synth_sigma_nonempty: "1 \<le> n \<Longrightarrow> synth_sigma n \<noteq> []"
  by (simp add: synth_sigma_def)

lemma synth_sigma_hd: "1 \<le> n \<Longrightarrow> hd (synth_sigma n) = (1/2 - real n) / real n"
  by (simp add: hd_conv_nth synth_sigma_nth synth_sigma_nonempty)

lemma synth_sigma_last: "1 \<le> n \<Longrightarrow> last (synth_sigma n) = - (1/2) / real n"
  by (simp add: last_conv_nth synth_sigma_nth synth_sigma_nonempty of_nat_diff field_simps)

lemma synth_sigma_bounds:
  assumes "1 \<le> n"
  shows "- 1 < hd (synth_sigma n)" "last (synth_sigma n) < 0"
    "(hd (synth_sigma n) + last (synth_sigma n)) / 2 = - 1/2"
  using assms
  by (simp_all add: synth_sigma_hd synth_sigma_last field_simps)

lemma example_init: "init example_env (Some ''roms.nc'') (Some ''my reader'') = Inr example_reader"
  unfolding example_reader_def
  by (simp add: init_def example_env_def init_fields_def example_dataset_def read_sigma_def read_stretching_def Let_def)


lemma example_fields:
  "init_fields example_env nm example_dataset = Inr (projr (init_fields example_env nm example_dataset))"
  by (simp add: example_env_def init_fields_def example_dataset_def read_sigma_def read_stretching_def Let_def)

text \<open>
  Claim C6.  When the dataset has no variable \<^verbatim>\<open>s_rho\<close>, the constructor sets the layer
  centres to \<open>(i + 1/2 - n) / n\<close> for \<open>i = 0, ..., n - 1\<close>, where \<open>n\<close> is the length of the
  dimension \<^verbatim>\<open>s_rho\<close>.  For \<open>n \<ge> 1\<close> these values increase strictly, the first is
  above \<open>-1\<close>, the last is below \<open>0\<close>, and the mean of the first and the last is \<open>-1/2\<close>.
\<close>

theorem synthesised_sigma:
  assumes "var_s_rho ds = None" and "dim_s_rho ds = Some n" and "init_fields e nm ds = Inr r"
  shows "sigma r = map (\<lambda>i. (real i + 1/2 - real n) / real n) [0..<n] \<and>
         (1 \<le> n \<longrightarrow> sorted_wrt (<) (sigma r) \<and> - 1 < hd (sigma r) \<and> last (sigma r) < 0 \<and>
            (hd (sigma r) + last (sigma r)) / 2 = - 1/2)"
proof -
  from assms have "sigma r = synth_sigma n"
    using init_fields_InrD(3) [OF assms(3)] by (simp add: read_sigma_def)
  then show ?thesis
    using synth_sigma_strict [of n] synth_sigma_bounds [of n]
    by (simp add: synth_sigma_def)
qed

theorem synthesised_sigma_witness:
  "var_s_rho example_dataset = None \<and> dim_s_rho example_dataset = Some 5 \<and>
   init_fields example_env ''my reader'' example_dataset = Inr example_fields \<and>
   sigma example_fields = [- 9/10, - 7/10, - 1/2, - 3/10, - 1/10] \<and>
   sorted_wrt (<) (sigma example_fields) \<and> - 1 < hd (sigma example_fields) \<and>
   last (sigma example_fields) < 0 \<and>
   (hd (sigma example_fields) + last (sigma example_fields)) / 2 = - 1/2"
proof -
  have h1: "var_s_rho example_dataset = None" and h2: "dim_s_rho example_dataset = Some 5"
    by (simp_all add: example_dataset_def)
  have h3: "init_fields example_env ''my reader'' example_dataset = Inr example_fields"
    unfolding example_fields_def by (rule example_fields)
  have "[0..<5] = [0, 1, 2, 3, 4::nat]" by code_simp
  then show ?thesis
    using synthesised_sigma [OF h1 h2 h3] h1 h2 h3 by simp
qed

text \<open>
  Claim C7.  The pairs \<open>(1, 1)\<close>, \<open>(2, 2)\<close> and \<open>(2, 4)\<close> of \<^verbatim>\<open>Vtransform\<close> and
  \<^verbatim>\<open>Vstretching\<close> select the three transform families; every other pair, and a missing
  or unreadable attribute, selects the first family.  The constructor stores this selection,
  and whether its body raises does not depend on the two attributes at all.
\<close>

theorem family_selection:
  "select_family (Some 1) (Some 1) = s_coordinate \<and>
   select_family (Some 2) (Some 2) = s_coordinate_2 \<and>
   select_family (Some 2) (Some 4) = s_coordinate_4 \<and>
   ((t, s) \<notin> {(1, 1), (2, 2), (2, 4)} \<longrightarrow> select_family (Some t) (Some s) = s_coordinate) \<and>
   select_family None vs = s_coordinate \<and>
   select_family vt None = s_coordinate \<and>
   (init_fields e nm ds = Inr r \<longrightarrow>
      s_coord r = select_family (var_Vtransform ds) (var_Vstretching ds)) \<and>
   isl (init_fields e nm (ds\<lparr>var_Vtransform := vt, var_Vstretching := vs\<rparr>)) =
     isl (init_fields e nm ds)"
  using init_fields_InrD(2) [of e nm ds r] init_fields_isl_attrs [where e=e and nm=nm and ds=ds and vt=vt and vs=vs]
  by (auto simp: select_family_def split: option.splits)

theorem family_selection_witness:
  "(2::real, 3::real) \<notin> {(1, 1), (2, 2), (2, 4)} \<and> select_family (Some 2) (Some 3) = s_coordinate \<and>
   init_fields example_env ''my reader'' example_dataset = Inr example_fields \<and>
   s_coord example_fields = s_coordinate \<and>
   \<not> isl (init_fields example_env ''my reader''
            (example_dataset\<lparr>var_Vtransform := None, var_Vstretching := Some 7\<rparr>))"
proof -
  have h: "init_fields example_env ''my reader'' example_dataset = Inr example_fields"
    unfolding example_fields_def by (rule example_fields)
  have a: "var_Vtransform example_dataset = Some 2" "var_Vstretching example_dataset = Some 3"
    by (simp_all add: example_dataset_def)
  show ?thesis
    using family_selection [where t=2 and s=3 and vs="Some 7" and vt=None and e=example_env
        and nm="''my reader''" and ds=example_dataset and r=example_fields]
      h a by simp
qed

text \<open>
  Claim C9.  After a successful construction the name of the reader is \<^verbatim>\<open>'roms native'\<close>,
  whatever file name and display name were passed.  The constructor of the parent class runs
  after the assignment and is not part of this file; it is assumed to leave the name alone.
\<close>

theorem reader_name:
  assumes "init e filename nm = Inr r"
    and "\<And>r0 r1. parent_init e r0 = Inr r1 \<Longrightarrow> name r1 = name r0"
  shows "name r = ''roms native''"
proof -
  from assms(1) obtain fn ds r0 where "init_fields e (case nm of None \<Rightarrow> fn | Some n \<Rightarrow> n) ds = Inr r0"
    and "parent_init e r0 = Inr r"
    by (auto simp: init_def split: option.splits sum.splits)
  then show ?thesis
    using init_fields_InrD(1) assms(2) by metis
qed

theorem reader_name_witness:
  "init example_env (Some ''roms.nc'') (Some ''my reader'') = Inr example_reader \<and>
   name example_reader = ''roms native''"
proof -
  have p: "\<And>r0 r1. parent_init example_env r0 = Inr r1 \<Longrightarrow> name r1 = name r0"
    by (auto simp: example_env_def)
  show ?thesis
    using reader_name [OF example_init p] example_init by simp
qed

section \<open>Properties of the vertical search\<close>

lemma np_min_Inr: "np_min zs = Inr m \<longleftrightarrow> zs \<noteq> [] \<and> m = Min (set zs)"
proof (cases zs)
  case Nil
  then show ?thesis by simp
next
  case (Cons z zs')
  have "fold min zs' z = Min (set (z # zs'))" by (rule Min.set_eq_fold [symmetric])
  with Cons show ?thesis by auto
qed

lemma np_max_Inr: "np_max zs = Inr m \<longleftrightarrow> zs \<noteq> [] \<and> m = Max (set zs)"
proof (cases zs)
  case Nil
  then show ?thesis by simp
next
  case (Cons z zs')
  have "fold max zs' z = Max (set (z # zs'))" by (rule Max.set_eq_fold [symmetric])
  with Cons show ?thesis by auto
qed

lemma int_min_Inr: "int_min zs = Inr m \<longleftrightarrow> zs \<noteq> [] \<and> m = Min (set zs)"
proof (cases zs)
  case Nil
  then show ?thesis by simp
next
  case (Cons z zs')
  have "fold min zs' z = Min (set (z # zs'))" by (rule Min.set_eq_fold [symmetric])
  with Cons show ?thesis by auto
qed

lemma int_max_Inr: "int_max zs = Inr m \<longleftrightarrow> zs \<noteq> [] \<and> m = Max (set zs)"
proof (cases zs)
  case Nil
  then show ?thesis by simp
next
  case (Cons z zs')
  have "fold max zs' z = Max (set (z # zs'))" by (rule Max.set_eq_fold [symmetric])
  with Cons show ?thesis by auto
qed

lemma mapE_Inr:
  "mapE f xs = Inr ys \<Longrightarrow> length ys = length xs \<and> (\<forall>i<length xs. f (xs ! i) = Inr (ys ! i))"
proof (induction xs arbitrary: ys)
  case Nil
  then show ?case by simp
next
  case (Cons x xs)
  then obtain w ws where w: "f x = Inr w" and ws: "mapE f xs = Inr ws" and ys: "ys = w # ws"
    by (auto split: sum.splits)
  from Cons.IH [OF ws] w ys show ?case
    by (auto simp: nth_Cons split: nat.splits)
qed

lemma zmins_le_zmaxs:
  assumes "zmins_of zp = Inr zmins" and "zmaxs_of zp = Inr zmaxs"
  shows "length zmins = length zp" and "length zmaxs = length zp"
    and "i < length zp \<Longrightarrow> zmins ! i \<le> zmaxs ! i"
proof -
  from assms have a: "length zmins = length zp" "\<forall>i<length zp. np_min (zp ! i) = Inr (zmins ! i)"
    and b: "length zmaxs = length zp" "\<forall>i<length zp. np_max (zp ! i) = Inr (zmaxs ! i)"
    using mapE_Inr unfolding zmins_of_def zmaxs_of_def by blast+
  show "length zmins = length zp" "length zmaxs = length zp" by fact+
  assume "i < length zp"
  with a b have "zp ! i \<noteq> []" "zmins ! i = Min (set (zp ! i))" "zmaxs ! i = Max (set (zp ! i))"
    by (auto simp: np_min_Inr np_max_Inr)
  then show "zmins ! i \<le> zmaxs ! i"
    using Min_le [of "set (zp ! i)" "hd (zp ! i)"] Max_ge [of "set (zp ! i)" "hd (zp ! i)"]
    by simp
qed

lemma bisect_loop_unfold:
  assumes "lo < hi"
  shows "a ! ((lo + hi) div 2) < v \<Longrightarrow>
           bisect_loop a v lo hi = bisect_loop a v ((lo + hi) div 2 + 1) hi"
    and "\<not> a ! ((lo + hi) div 2) < v \<Longrightarrow>
           bisect_loop a v lo hi = bisect_loop a v lo ((lo + hi) div 2)"
  using assms by (subst bisect_loop.simps, simp add: Let_def)+

lemma bisect_loop_stop: "\<not> lo < hi \<Longrightarrow> bisect_loop a v lo hi = lo"
  by (subst bisect_loop.simps) simp

lemma bisect_loop_range:
  "lo \<le> hi \<Longrightarrow> lo \<le> bisect_loop a v lo hi \<and> bisect_loop a v lo hi \<le> hi"
proof (induction a v lo hi rule: bisect_loop.induct)
  case (1 a v lo hi)
  show ?case
  proof (cases "lo < hi")
    case False
    with 1(3) show ?thesis by (simp add: bisect_loop_stop)
  next
    case True
    define mid where "mid = (lo + hi) div 2"
    have m: "lo \<le> mid" "mid < hi" using True by (auto simp: mid_def)
    show ?thesis
    proof (cases "a ! mid < v")
      case lt: True
      have "mid + 1 \<le> bisect_loop a v (mid + 1) hi \<and> bisect_loop a v (mid + 1) hi \<le> hi"
        using 1(1) [OF True mid_def lt] m by simp
      moreover have "bisect_loop a v lo hi = bisect_loop a v (mid + 1) hi"
        using bisect_loop_unfold(1) [OF True] lt by (simp add: mid_def)
      ultimately show ?thesis using m by simp
    next
      case ge: False
      have "lo \<le> bisect_loop a v lo mid \<and> bisect_loop a v lo mid \<le> mid"
        using 1(2) [OF True mid_def ge] m by simp
      moreover have "bisect_loop a v lo hi = bisect_loop a v lo mid"
        using bisect_loop_unfold(2) [OF True] ge by (simp add: mid_def)
      ultimately show ?thesis using m by simp
    qed
  qed
qed

lemma bisect_loop_sorted:
  assumes "sorted a" and "hi \<le> length a" and "lo \<le> hi"
    and "\<forall>i<lo. a ! i < v" and "\<forall>i. hi \<le> i \<and> i < length a \<longrightarrow> v \<le> a ! i"
  shows "(\<forall>i<bisect_loop a v lo hi. a ! i < v) \<and>
         (\<forall>i. bisect_loop a v lo hi \<le> i \<and> i < length a \<longrightarrow> v \<le> a ! i)"
  using assms
proof (induction a v lo hi rule: bisect_loop.induct)
  case (1 a v lo hi)
  show ?case
  proof (cases "lo < hi")
    case False
    with 1(5) have "lo = hi" by simp
    with 1(6,7) show ?thesis by (simp add: bisect_loop_stop)
  next
    case True
    define mid where "mid = (lo + hi) div 2"
    have m: "lo \<le> mid" "mid < hi" using True by (auto simp: mid_def)
    show ?thesis
    proof (cases "a ! mid < v")
      case lt: True
      have below: "\<forall>i<mid + 1. a ! i < v"
      proof (intro allI impI)
        fix i assume "i < mid + 1"
        then have "a ! i \<le> a ! mid"
          using \<open>sorted a\<close> m 1(4) by (auto simp: sorted_iff_nth_mono)
        with lt show "a ! i < v" by simp
      qed
      have "mid + 1 \<le> hi" using m by simp
      from 1(1) [OF True mid_def lt 1(3) 1(4) this below 1(7)]
      have "(\<forall>i<bisect_loop a v (mid + 1) hi. a ! i < v) \<and>
            (\<forall>i. bisect_loop a v (mid + 1) hi \<le> i \<and> i < length a \<longrightarrow> v \<le> a ! i)" .
      moreover have "bisect_loop a v lo hi = bisect_loop a v (mid + 1) hi"
        using bisect_loop_unfold(1) [OF True] lt by (simp add: mid_def)
      ultimately show ?thesis by simp
    next
      case ge: False
      have above: "\<forall>i. mid \<le> i \<and> i < length a \<longrightarrow> v \<le> a ! i"
      proof (intro allI impI)
        fix i assume "mid \<le> i \<and> i < length a"
        then have "a ! mid \<le> a ! i"
          using \<open>sorted a\<close> by (auto simp: sorted_iff_nth_mono)
        with ge show "v \<le> a ! i" by simp
      qed
      have "mid \<le> length a" using m 1(4) by simp
      from 1(2) [OF True mid_def ge 1(3) this m(1) 1(6) above]
      have "(\<forall>i<bisect_loop a v lo mid. a ! i < v) \<and>
            (\<forall>i. bisect_loop a v lo mid \<le> i \<and> i < length a \<longrightarrow> v \<le> a ! i)" .
      moreover have "bisect_loop a v lo hi = bisect_loop a v lo mid"
        using bisect_loop_unfold(2) [OF True] ge by (simp add: mid_def)
      ultimately show ?thesis by simp
    qed
  qed
qed

lemma bisect_left_sorted:
  assumes "sorted a"
  shows "bisect_left a v \<le> length a"
    and "i < bisect_left a v \<Longrightarrow> a ! i < v"
    and "bisect_left a v \<le> i \<Longrightarrow> i < length a \<Longrightarrow> v \<le> a ! i"
  using bisect_loop_range [of 0 "length a" a v] bisect_loop_sorted [OF assms, of "length a" 0 v]
  by (auto simp: bisect_left_def)


lemma bisect_left_le: "bisect_left a v \<le> length a"
  using bisect_loop_range [of 0 "length a" a v] by (simp add: bisect_left_def)

lemma bisect_order:
  assumes "zmins_of zp = Inr zmins" and "zmaxs_of zp = Inr zmaxs"
    and "sorted zmins" and "sorted zmaxs" and "zlo \<le> zhi"
  shows "bisect_left zmaxs zlo \<le> bisect_left zmins zhi"
proof (rule ccontr)
  assume "\<not> ?thesis"
  then have lt: "bisect_left zmins zhi < bisect_left zmaxs zlo" by simp
  define k where "k = bisect_left zmins zhi"
  have len: "length zmins = length zp" "length zmaxs = length zp"
    using zmins_le_zmaxs(1,2) [OF assms(1,2)] by simp_all
  have k: "k < length zp"
    using lt bisect_left_le [of zmaxs zlo] len by (simp add: k_def)
  have "zmaxs ! k < zlo"
    using bisect_left_sorted(2) [OF assms(4)] lt by (simp add: k_def)
  moreover have "zhi \<le> zmins ! k"
    using bisect_left_sorted(3) [OF assms(3), where v=zhi and i=k] k len by (simp add: k_def)
  moreover have "zmins ! k \<le> zmaxs ! k"
    using zmins_le_zmaxs(3) [OF assms(1,2) k] .
  ultimately show False using assms(5) by simp
qed

section \<open>Properties of the extraction\<close>

lemma int64_id: "- (2 ^ 63) \<le> k \<Longrightarrow> k < 2 ^ 63 \<Longrightarrow> int64 k = k"
  by (simp add: int64_def)

lemma int64_range: "- (2 ^ 63) \<le> int64 k \<and> int64 k < 2 ^ 63"
proof -
  have "0 \<le> (k + 2 ^ 63) mod 2 ^ 64" "(k + 2 ^ 63) mod 2 ^ 64 < (2 ^ 64 :: int)"
    by simp_all
  then show ?thesis by (simp add: int64_def)
qed

lemma astype_int_of_int:
  "astype_int (of_int k) = (if - (2 ^ 63) \<le> k \<and> k < 2 ^ 63 then k else - (2 ^ 63))"
proof -
  have a: "(- (2 ^ 63) \<le> (of_int k :: real)) = (- (2 ^ 63) \<le> k)"
    using of_int_le_iff [of "- (2 ^ 63)" k, where ?'a=real] by simp
  have b: "((of_int k :: real) < 2 ^ 63) = (k < 2 ^ 63)"
    using of_int_less_iff [of k "2 ^ 63", where ?'a=real] by simp
  show ?thesis by (simp add: astype_int_def a b)
qed

lemma floor_index_eq:
  "floor_index lo d c =
    (if d \<noteq> 0 \<and> - (2 ^ 63) \<le> \<lfloor>(c - lo) / d\<rfloor> \<and> \<lfloor>(c - lo) / d\<rfloor> < 2 ^ 63
     then \<lfloor>(c - lo) / d\<rfloor> else - (2 ^ 63))"
  by (simp add: floor_index_def astype_int_of_int)

lemma floor_index_range: "- (2 ^ 63) \<le> floor_index lo d c \<and> floor_index lo d c < 2 ^ 63"
  by (simp add: floor_index_eq)

lemma example_reader_eq:
  "example_reader =
    \<lparr> name = ''roms native'', Dataset = example_dataset,
      sigma = [- (9/10), - (7/10), - (1/2), - (3/10), - (1/10)],
      Vtransform = Some 2, Vstretching = Some 3, s_coord = s_coordinate,
      theta_s = 3, theta_b = 4/10, Tcline = 10, num_layers = 5,
      lat = example_grid, lon = example_grid, angle_between_x_and_east = example_grid,
      times_dec = [0, 3600], start_time = 0, end_time = 3600, time_step = Some 3600,
      xmin = 0, xmax = 9, delta_x = 1, ymin = 0, ymax = 9, delta_y = 1,
      variables = [''land_binary_mask'', ''sea_surface_height'', ''sea_water_temperature''],
      sea_floor_depth = None, buffer = 2 \<rparr>"
proof -
  have "[0..<5] = [0, 1, 2, 3, 4::nat]" by code_simp
  then show ?thesis
    unfolding example_reader_def
    by (simp add: init_def example_env_def init_fields_def example_dataset_def read_sigma_def
        read_stretching_def Let_def synth_sigma_def select_family_def catalogue_def
        ROMS_variable_mapping_def)
qed

lemma vertical_reader:
  assumes "vertical e r indx indy z = (r', out)"
  shows "r' = r \<or> (\<exists>h. r' = r\<lparr>sea_floor_depth := Some h\<rparr>)"
  using assms
  by (auto simp: vertical_def load_sea_floor_depth_def split: sum.splits if_splits option.splits)

lemma vertical_surface:
  "np_min z = Inr 0 \<Longrightarrow>
     vertical e r indx indy z = (r, Inr (Layer (int (num_layers r) - 1), ZEcho z))"
  by (simp add: vertical_def)

lemma get_variables_InrD:
  assumes "get_variables e r q block = (r', Inr res)"
  obtains indz zv indx indy vars an where
    "vertical e r (map (floor_index (xmin r) (delta_x r)) (qx q))
       (map (floor_index (ymin r) (delta_y r)) (qy q)) (qz q) = (r', Inr (indz, zv))"
    "horizontal r' block (outside0 q) (map (floor_index (xmin r) (delta_x r)) (qx q))
       (map (floor_index (ymin r) (delta_y r)) (qy q)) = Inr (indx, indy)"
    "extract_all (extract_variable r' q block indz indy indx) (requested_variables q) Map.empty = Inr vars"
    "angle_at (angle_between_x_and_east r') indy indx = Inr an"
    "res = \<lparr> res_variables = invert_land_mask vars, res_z = zv, res_angle = an,
             res_x = (if block then Indices indx else Coordinates (point_coords (xmin r') (delta_x r') indx)),
             res_y = (if block then Indices indy else Coordinates (point_coords (ymin r') (delta_y r') indy)),
             res_time = nearestTime q \<rparr>"
  using assms
  by (auto simp: get_variables_def finish_def Let_def split: sum.splits prod.splits)


lemmas model_defs =
  get_variables_def vertical_def finish_def horizontal_def assign_at_def extract_variable_def
  lookup_varname_def ROMS_variable_mapping_def fetch_def orth2_def orth3_def diagonal_def
  ma_array_def mask_rows_def angle_at_def in_axis_def invert_land_mask_def invert_def
  point_coords_def floor_index_eq int64_id ndim_def block_range_def shape_at_def np_arange_def
  example_dataset_def example_variables_def example_grid_def example_query_def Let_def

lemma example_run:
  "get_variables example_env example_reader example_query False = (example_reader, Inr example_result)"
  unfolding example_result_def
  by (simp add: example_reader_eq model_defs)


lemma np_min_zero_iff:
  assumes "z \<noteq> []" and "\<forall>v\<in>set z. v \<le> 0"
  shows "np_min z = Inr 0 \<longleftrightarrow> (\<forall>v\<in>set z. v = 0)"
proof
  assume "np_min z = Inr 0"
  then have m: "Min (set z) = 0" by (simp add: np_min_Inr)
  show "\<forall>v\<in>set z. v = 0"
  proof
    fix v assume v: "v \<in> set z"
    then have "Min (set z) \<le> v" by simp
    with m assms(2) v show "v = 0" by fastforce
  qed
next
  assume a: "\<forall>v\<in>set z. v = 0"
  have "Min (set z) \<in> set z" using assms(1) by (intro Min_in) simp_all
  with a assms(1) show "np_min z = Inr 0" by (simp add: np_min_Inr)
qed

lemma fold_update_nth:
  "\<forall>k\<in>set ks. k < length xs \<Longrightarrow>
     length (fold (\<lambda>k ys. ys[k := v]) ks xs) = length xs \<and>
     (\<forall>i<length xs. fold (\<lambda>k ys. ys[k := v]) ks xs ! i = (if i \<in> set ks then v else xs ! i))"
proof (induction ks arbitrary: xs)
  case Nil
  then show ?case by simp
next
  case (Cons k ks)
  have "\<forall>j\<in>set ks. j < length (xs[k := v])" using Cons.prems by simp
  from Cons.IH [OF this] Cons.prems show ?case
    by (auto simp: nth_list_update)
qed

lemma assign_at_Inr:
  assumes "assign_at ks v xs = Inr ys"
  shows "length ys = length xs"
    and "\<forall>i<length xs. ys ! i = (if i \<in> set ks then v else xs ! i)"
proof -
  from assms have k: "\<forall>k\<in>set ks. k < length xs" and ys: "ys = fold (\<lambda>k ys. ys[k := v]) ks xs"
    by (auto simp: assign_at_def list_all_iff split: if_splits)
  from fold_update_nth [OF k, of v] ys
  show "length ys = length xs" "\<forall>i<length xs. ys ! i = (if i \<in> set ks then v else xs ! i)"
    by simp_all
qed

lemma horizontal_point:
  assumes "horizontal r False outs ix iy = Inr (px, py)"
  shows "length px = length ix" "length py = length iy"
    and "\<forall>k<length ix. px ! k = (if k \<in> set outs then 0 else ix ! k)"
    and "\<forall>k<length iy. py ! k = (if k \<in> set outs then 0 else iy ! k)"
proof -
  from assms have a: "assign_at outs 0 ix = Inr px" and b: "assign_at outs 0 iy = Inr py"
    by (auto simp: horizontal_def split: sum.splits)
  show "length px = length ix" "length py = length iy"
    "\<forall>k<length ix. px ! k = (if k \<in> set outs then 0 else ix ! k)"
    "\<forall>k<length iy. py ! k = (if k \<in> set outs then 0 else iy ! k)"
    using assign_at_Inr [OF a] assign_at_Inr [OF b] by simp_all
qed

lemma horizontal_block:
  assumes "horizontal r True outs ix iy = Inr (bx, by)"
  shows "ix \<noteq> []" "iy \<noteq> []" "2 \<le> length (shape (lon r))"
    and "bx = np_arange (max 0 (int64 (Min (set ix) - buffer r)))
                 (min (int64 (Max (set ix) + buffer r)) (int (shape (lon r) ! 1)))"
    and "by = np_arange (max 0 (int64 (Min (set iy) - buffer r)))
                 (min (int64 (Max (set iy) + buffer r)) (int (shape (lon r) ! 0)))"
  using assms
  by (auto simp: horizontal_def block_range_def shape_at_def int_min_Inr int_max_Inr
      split: sum.splits if_splits)

lemma horizontal_cache [simp]:
  "horizontal (r\<lparr>sea_floor_depth := h\<rparr>) block outs ix iy = horizontal r block outs ix iy"
  by (simp add: horizontal_def cong: sum.case_cong)

lemma example_block_run:
  "get_variables example_env example_reader example_query True = (example_reader, Inr example_block)"
  unfolding example_block_def
  by (simp add: example_reader_eq model_defs int_min_Inr int_max_Inr list_all_iff)

lemma invert_frame:
  "shape (ma_data (invert m)) = shape (ma_data m)" "ma_mask (invert m) = ma_mask m"
  by (simp_all add: invert_def)

lemma invert_land_mask_apply:
  "invert_land_mask vars par =
     (if par = ''land_binary_mask'' then map_option invert (vars par) else vars par)"
  by (cases "vars ''land_binary_mask''") (simp_all add: invert_land_mask_def)


lemma extract_all_Some:
  "extract_all f ps vars0 = Inr vars \<Longrightarrow> vars par = Some m \<Longrightarrow>
     vars0 par = Some m \<or> (par \<in> set ps \<and> f par = Inr m)"
proof (induction ps arbitrary: vars0)
  case Nil
  then show ?case by simp
next
  case (Cons p ps)
  from Cons.prems(1) obtain m0 where f: "f p = Inr m0"
    and rest: "extract_all f ps (vars0(p \<mapsto> m0)) = Inr vars"
    by (auto split: sum.splits)
  from Cons.IH [OF rest Cons.prems(2)] f show ?case
    by (auto split: if_splits)
qed

lemma ma_array_shape:
  "shape (ma_data (ma_array a)) = replicate (2 - ndim a) 1 @ shape a"
  "shape (ma_mask (ma_array a)) = replicate (2 - ndim a) 1 @ shape a"
  "2 \<le> ndim (ma_data (ma_array a))"
  by (auto simp: ma_array_def ndim_def)

lemma mask_rows_shape:
  assumes "mask_rows ks m = Inr m'"
  shows "ma_data m' = ma_data m" and "shape (ma_mask m') = shape (ma_mask m)"
  using assms by (auto simp: mask_rows_def split: if_splits)

lemma fetch_shape:
  assumes "fetch var t indz indy indx = Inr a"
  shows "nc_ndim var = 2 \<or> nc_ndim var = 3 \<or> (nc_ndim var = 4 \<and> (\<exists>k. indz = Layer k))
           \<Longrightarrow> shape a = [length indy, length indx]"
    and "nc_ndim var = 4 \<Longrightarrow> indz = Layers ks
           \<Longrightarrow> shape a = [length ks, length indy, length indx]"
  using assms by (auto simp: fetch_def orth2_def orth3_def split: if_splits layer_index.splits)

lemma extract_variable_shape:
  assumes "extract_variable r q block indz indy indx par = Inr m"
  shows "2 \<le> ndim (ma_data m)" and "shape (ma_mask m) = shape (ma_data m)"
    and "\<not> block \<Longrightarrow> lookup_varname par = Inr nm \<Longrightarrow> nc_variables (Dataset r) nm = Some var \<Longrightarrow>
         nc_ndim var = 2 \<or> nc_ndim var = 3 \<or> (nc_ndim var = 4 \<and> (\<exists>k. indz = Layer k)) \<Longrightarrow>
         shape (ma_data m) = [1, min (length indy) (length indx)]"
proof -
  from assms obtain nm' var' a where
    l: "lookup_varname par = Inr nm'" and v: "nc_variables (Dataset r) nm' = Some var'"
    and f: "fetch var' (indxTime q) indz indy indx = Inr a"
    and m: "(if block then Inr (ma_array (if Suc 0 < ndim a \<and> \<not> block then diagonal a else a))
             else mask_rows (outside0 q) (ma_array (if Suc 0 < ndim a \<and> \<not> block then diagonal a else a)))
            = Inr m"
    by (auto simp: extract_variable_def Let_def split: sum.splits option.splits)
  define d where "d = (if Suc 0 < ndim a \<and> \<not> block then diagonal a else a)"
  from m have md: "ma_data m = ma_data (ma_array d)" "shape (ma_mask m) = shape (ma_mask (ma_array d))"
    unfolding d_def [symmetric] using mask_rows_shape [of "outside0 q" "ma_array d" m]
    by (auto split: if_splits)
  show "2 \<le> ndim (ma_data m)" "shape (ma_mask m) = shape (ma_data m)"
    using md ma_array_shape [of d] by simp_all
  assume nb: "\<not> block" and "lookup_varname par = Inr nm" and "nc_variables (Dataset r) nm = Some var"
    and rank: "nc_ndim var = 2 \<or> nc_ndim var = 3 \<or> (nc_ndim var = 4 \<and> (\<exists>k. indz = Layer k))"
  with l v have "var' = var" by simp
  with fetch_shape(1) [OF f] rank have sa: "shape a = [length indy, length indx]" by simp
  then have "shape d = [min (length indy) (length indx)]"
    using nb by (simp add: d_def ndim_def diagonal_def)
  then show "shape (ma_data m) = [1, min (length indy) (length indx)]"
    using md(1) by (simp add: ma_array_shape ndim_def)
qed


text \<open>
  Claim C10 (amended).  Every variable of the result is a masked array of rank at least 2
  whose mask has the shape of its data.  In point mode a query over \<open>n\<close> points yields the
  shape \<open>(1, n)\<close> for every variable of rank 2 or 3 of the dataset, and for a variable of
  rank 4 on the surface path.
\<close>

theorem result_rank:
  assumes "get_variables e r q block = (r', Inr res)" and "res_variables res par = Some m"
  shows "2 \<le> ndim (ma_data m) \<and> 2 \<le> ndim (ma_mask m) \<and> shape (ma_mask m) = shape (ma_data m) \<and>
    (\<not> block \<and> length (qx q) = n \<and> length (qy q) = n \<and>
     lookup_varname par = Inr nm \<and> nc_variables (Dataset r) nm = Some var \<and>
     (nc_ndim var = 2 \<or> nc_ndim var = 3 \<or> (nc_ndim var = 4 \<and> np_min (qz q) = Inr 0))
     \<longrightarrow> shape (ma_data m) = [1, n])"
proof -
  define ix where "ix = map (floor_index (xmin r) (delta_x r)) (qx q)"
  define iy where "iy = map (floor_index (ymin r) (delta_y r)) (qy q)"
  from assms(1) obtain indz zv indx indy vars an where
    v: "vertical e r ix iy (qz q) = (r', Inr (indz, zv))"
    and h: "horizontal r' block (outside0 q) ix iy = Inr (indx, indy)"
    and x: "extract_all (extract_variable r' q block indz indy indx) (requested_variables q) Map.empty = Inr vars"
    and res: "res = \<lparr> res_variables = invert_land_mask vars, res_z = zv, res_angle = an,
             res_x = (if block then Indices indx else Coordinates (point_coords (xmin r') (delta_x r') indx)),
             res_y = (if block then Indices indy else Coordinates (point_coords (ymin r') (delta_y r') indy)),
             res_time = nearestTime q \<rparr>"
    unfolding ix_def iy_def by (rule get_variables_InrD)
  from res assms(2) have "invert_land_mask vars par = Some m" by simp
  then obtain m0 where m0: "vars par = Some m0" and mm: "m = m0 \<or> m = invert m0"
    by (auto simp: invert_land_mask_apply split: if_splits)
  from extract_all_Some [OF x m0]
  have ex: "extract_variable r' q block indz indy indx par = Inr m0" by simp
  from mm have sh: "shape (ma_data m) = shape (ma_data m0)" "shape (ma_mask m) = shape (ma_mask m0)"
    by (auto simp: invert_frame)
  have a: "2 \<le> ndim (ma_data m)" "shape (ma_mask m) = shape (ma_data m)"
    using extract_variable_shape(1,2) [OF ex] sh by (simp_all add: ndim_def)
  have b: "shape (ma_data m) = [1, n]"
    if nb: "\<not> block" and len: "length (qx q) = n" "length (qy q) = n"
      and l: "lookup_varname par = Inr nm" and nv: "nc_variables (Dataset r) nm = Some var"
      and rank: "nc_ndim var = 2 \<or> nc_ndim var = 3 \<or> (nc_ndim var = 4 \<and> np_min (qz q) = Inr 0)"
  proof -
    from vertical_reader [OF v] nv have nv': "nc_variables (Dataset r') nm = Some var" by auto
    from h nb have "horizontal r' False (outside0 q) ix iy = Inr (indx, indy)" by simp
    from horizontal_point(1,2) [OF this] len
    have n: "length indx = n" "length indy = n" by (simp_all add: ix_def iy_def)
    have "nc_ndim var = 4 \<and> np_min (qz q) = Inr 0 \<Longrightarrow> \<exists>k. indz = Layer k"
      using v vertical_surface [of "qz q" e r ix iy] by auto
    with rank have "nc_ndim var = 2 \<or> nc_ndim var = 3 \<or> (nc_ndim var = 4 \<and> (\<exists>k. indz = Layer k))"
      by blast
    from extract_variable_shape(3) [OF ex nb l nv' this] n sh show ?thesis by simp
  qed
  from a b show ?thesis by (simp add: ndim_def)
qed

theorem result_rank_witness:
  "get_variables example_env example_reader example_query False =
     (example_reader, Inr example_result) \<and>
   lookup_varname ''land_binary_mask'' = Inr ''mask_psi'' \<and>
   map_option nc_ndim (nc_variables (Dataset example_reader) ''mask_psi'') = Some 2 \<and>
   length (qx example_query) = 2 \<and> length (qy example_query) = 2 \<and>
   map_option (shape \<circ> ma_data) (res_variables example_result ''land_binary_mask'') = Some [1, 2]"
proof -
  obtain m where m: "res_variables example_result ''land_binary_mask'' = Some m"
    unfolding example_result_def by (simp add: example_reader_eq model_defs)
  have l: "lookup_varname ''land_binary_mask'' = Inr ''mask_psi''"
    by (simp add: lookup_varname_def ROMS_variable_mapping_def)
  have v: "nc_variables (Dataset example_reader) ''mask_psi'' = Some \<lparr> nc_ndim = 2, nc_value = (\<lambda>i. 1) \<rparr>"
    by (simp add: example_reader_eq example_dataset_def example_variables_def)
  have q: "length (qx example_query) = 2" "length (qy example_query) = 2"
    by (simp_all add: example_query_def)
  show ?thesis
    using result_rank [OF example_run m, where n=2 and nm="''mask_psi''"
        and var="\<lparr> nc_ndim = 2, nc_value = (\<lambda>i. 1) \<rparr>"] m l v q example_run
    by simp
qed

lemma example_deep_run:
  "get_variables example_env example_reader example_deep_query False =
     (example_reader\<lparr>sea_floor_depth := var_h example_dataset\<rparr>, Inr example_deep)"
proof -
  have u: "[0..<5] = [0, 1, 2, 3, 4::nat]" "[0..4] = [0, 1, 2, 3, 4::int]" by code_simp+
  have b: "bisect_left [- 90, - 70, - 50, - 30, - 10] (- 50) = 2"
    by (simp add: bisect_left_def bisect_loop.simps)
  show ?thesis
    unfolding example_deep_def
    by (simp add: example_reader_eq model_defs example_deep_query_def u b
        load_sea_floor_depth_def general_depth_def pair_index_def example_env_def example_vgrid_def
        depth_search_def zmins_of_def zmaxs_of_def indz_min_of_def indz_max_of_def zbuffer_def
        take_rows_def)
qed

text \<open>
  For a variable of rank 4 below the surface the fetch has three axes, and the diagonal of
  the first two leaves the shape \<open>(n, min L n)\<close> for a range of \<open>L\<close> layers: two points at depth
  50 give \<open>(2, 2)\<close>.
\<close>

theorem result_rank_counterexample:
  "snd (get_variables example_env example_reader example_deep_query False) = Inr example_deep \<and>
   length (qx example_deep_query) = 2 \<and> length (qy example_deep_query) = 2 \<and>
   map_option (shape \<circ> ma_data) (res_variables example_deep ''sea_water_temperature'') = Some [2, 2]"
proof -
  have u: "[0..<5] = [0, 1, 2, 3, 4::nat]" "[0..4] = [0, 1, 2, 3, 4::int]" by code_simp+
  have b: "bisect_left [- 90, - 70, - 50, - 30, - 10] (- 50) = 2"
    by (simp add: bisect_left_def bisect_loop.simps)
  have "map_option (shape \<circ> ma_data) (res_variables example_deep ''sea_water_temperature'') = Some [2, 2]"
    unfolding example_deep_def
    by (simp add: example_reader_eq model_defs example_deep_query_def u b
        load_sea_floor_depth_def general_depth_def pair_index_def example_env_def example_vgrid_def
        depth_search_def zmins_of_def zmaxs_of_def indz_min_of_def indz_max_of_def zbuffer_def
        take_rows_def)
  then show ?thesis
    using example_deep_run by (simp add: example_deep_query_def example_query_def)
qed


lemma np_arange_set: "set (np_arange a b) = {a..b - 1}"
  by (simp add: np_arange_def)

lemma block_range_clamped:
  assumes "block_range buf ext ind = Inr rng"
  shows "\<forall>i\<in>set rng. 0 \<le> i \<and> i \<le> ext - 1"
  using assms
  by (auto simp: block_range_def np_arange_set split: sum.splits)

lemma extract_variable_block_outside:
  "extract_variable r (q\<lparr>outside0 := ks\<rparr>) True indz indy indx =
   extract_variable r q True indz indy indx"
  by (rule ext) (simp add: extract_variable_def Let_def cong: sum.case_cong option.case_cong)

lemma get_variables_block_outside:
  "get_variables e r (q\<lparr>outside0 := ks\<rparr>) True = get_variables e r q True"
proof -
  have "finish r' (q\<lparr>outside0 := ks\<rparr>) True indz zv ix iy = finish r' q True indz zv ix iy"
    for r' indz zv ix iy
    by (simp add: finish_def horizontal_def extract_variable_block_outside
        cong: sum.case_cong prod.case_cong)
  then show ?thesis
    by (simp add: get_variables_def Let_def cong: sum.case_cong prod.case_cong)
qed

lemma point_mask_whole_row:
  assumes "mask_rows ks (ma_array d) = Inr m" and "shape d = [n]"
  shows "set ks \<subseteq> {0}" and "elem (ma_mask m) [0, j] = (ks \<noteq> [])"
proof -
  have s: "shape (ma_mask (ma_array d)) = [1, n]"
    using assms(2) by (simp add: ma_array_def ndim_def)
  from assms(1) s have k: "\<forall>k\<in>set ks. k < 1"
    and m: "ma_mask m = \<lparr> shape = [1, n], elem = (\<lambda>i. hd i \<in> set ks \<or> elem (ma_mask (ma_array d)) i) \<rparr>"
    by (auto simp: mask_rows_def list_all_iff split: if_splits)
  from k show "set ks \<subseteq> {0}" by auto
  with m show "elem (ma_mask m) [0, j] = (ks \<noteq> [])"
    by (cases ks) (auto simp: ma_array_def)
qed

text \<open>
  Claim C3.  The claim asks for the range from \<open>min - buffer\<close> to \<open>max + buffer\<close>, clamped to
  the grid.  The end of \<^verbatim>\<open>np.arange\<close> is exclusive, so the range of the source stops at
  \<open>max + buffer - 1\<close>: with columns 1 and 7, a buffer of 2 and a grid of width 10 it is
  \<open>0, ..., 8\<close> and misses column 9, and with a buffer of 0 around the single column 3 it is
  empty.  (The ranges do stay inside the grid, see \<open>block_range_clamped\<close>.)
\<close>

theorem block_range_upper_end:
  "get_variables example_env example_reader example_query True =
     (example_reader, Inr example_block) \<and>
   qx example_query = [3/2, 7] \<and> buffer example_reader = 2 \<and>
   shape (lon example_reader) = [10, 10] \<and>
   res_x example_block = Indices [0, 1, 2, 3, 4, 5, 6, 7, 8] \<and>
   block_range 0 10 [3] = Inr []"
proof -
  have u: "[0..8] = [0, 1, 2, 3, 4, 5, 6, 7, 8 :: int]" "[0..5] = [0, 1, 2, 3, 4, 5 :: int]"
    by code_simp+
  have "res_x example_block = Indices [0, 1, 2, 3, 4, 5, 6, 7, 8]"
    unfolding example_block_def
    by (simp add: example_reader_eq model_defs int_min_Inr int_max_Inr list_all_iff u)
  moreover have "block_range 0 10 [3] = Inr []"
    by (simp add: block_range_def np_arange_def)
  ultimately show ?thesis
    using example_block_run
    by (simp add: example_query_def example_reader_eq example_grid_def)
qed

text \<open>
  Claim C4.  The claim asks for a mask that is set exactly at the flagged points.  The mask
  of the source has the shape \<open>(1, n)\<close> and is indexed along its first axis: flagging point 0
  of two points masks both points, and flagging point 1 raises an index error.  (The indices
  of the flagged points are set to 0 before the fetch, see \<open>horizontal_point\<close>, and block mode
  ignores the flags, see \<open>get_variables_block_outside\<close>.)
\<close>

theorem point_mask_first_axis:
  "outside0 example_first_outside = [0] \<and> length (qx example_first_outside) = 2 \<and>
   map_option (shape \<circ> ma_mask)
     (res_variables (projr (snd (get_variables example_env example_reader example_first_outside False)))
        ''land_binary_mask'') = Some [1, 2] \<and>
   map_option ((\<lambda>a. (elem a [0, 0], elem a [0, 1])) \<circ> ma_mask)
     (res_variables (projr (snd (get_variables example_env example_reader example_first_outside False)))
        ''land_binary_mask'') = Some (True, True) \<and>
   outside0 example_second_outside = [1] \<and>
   snd (get_variables example_env example_reader example_second_outside False) = Inl IndexError"
  by (simp add: example_reader_eq model_defs example_first_outside_def example_second_outside_def)

section \<open>The two regimes of the vertical search\<close>

lemma load_sea_floor_depth_InrD:
  assumes "load_sea_floor_depth r = Inr r'"
  obtains h where "sea_floor_depth r' = Some h" and "r' = r\<lparr>sea_floor_depth := Some h\<rparr>"
    and "sea_floor_depth r = Some h \<or> (sea_floor_depth r = None \<and> var_h (Dataset r) = Some h)"
  using assms
  by (auto simp: load_sea_floor_depth_def split: option.splits)

lemma vertical_general_eq:
  assumes "np_min z = Inr zlo" and "zlo \<noteq> 0"
  shows "vertical e r indx indy z =
    (case load_sea_floor_depth r of
       Inl err \<Rightarrow> (r, Inl err)
     | Inr r1 \<Rightarrow> (r1, general_depth e r1 indx indy zlo (Max (set z))))"
proof -
  from assms(1) have "z \<noteq> []" by (simp add: np_min_Inr)
  then have "np_max z = Inr (Max (set z))" by (simp add: np_max_Inr)
  with assms show ?thesis
    by (simp add: vertical_def cong: sum.case_cong)
qed

lemma general_depth_InrD:
  assumes "general_depth e r indx indy zlo zhi = Inr (indz, zv)"
  obtains h depth zmins zmaxs rows where
    "sea_floor_depth r = Some h" and "pair_index h indy indx = Inr depth"
    and "zmins_of (vgrid e (s_coord r) depth (theta_b r) (theta_s r) (Tcline r) (length (sigma r)))
           = Inr zmins"
    and "zmaxs_of (vgrid e (s_coord r) depth (theta_b r) (theta_s r) (Tcline r) (length (sigma r)))
           = Inr zmaxs"
    and "indz = Layers (np_arange (indz_min_of zbuffer zmaxs zlo)
                          (indz_max_of zbuffer (length (sigma r)) zmins zhi + 1))"
    and "take_rows (vgrid e (s_coord r) depth (theta_b r) (theta_s r) (Tcline r) (length (sigma r)))
           (np_arange (indz_min_of zbuffer zmaxs zlo)
              (indz_max_of zbuffer (length (sigma r)) zmins zhi + 1)) = Inr rows"
    and "zv = ZProfile rows"
  using assms
  by (auto simp: general_depth_def depth_search_def Let_def
      split: option.splits sum.splits prod.splits)

lemma vertical_general_InrD:
  assumes "np_min z = Inr zlo" and "zlo \<noteq> 0"
    and "vertical e r indx indy z = (r', Inr (indz, zv))"
  obtains h depth zmins zmaxs rows where
    "sea_floor_depth r' = Some h"
    and "sea_floor_depth r = Some h \<or> (sea_floor_depth r = None \<and> var_h (Dataset r) = Some h)"
    and "pair_index h indy indx = Inr depth"
    and "zmins_of (vgrid e (s_coord r) depth (theta_b r) (theta_s r) (Tcline r) (length (sigma r)))
           = Inr zmins"
    and "zmaxs_of (vgrid e (s_coord r) depth (theta_b r) (theta_s r) (Tcline r) (length (sigma r)))
           = Inr zmaxs"
    and "indz = Layers (np_arange (indz_min_of zbuffer zmaxs zlo)
                          (indz_max_of zbuffer (length (sigma r)) zmins (Max (set z)) + 1))"
    and "take_rows (vgrid e (s_coord r) depth (theta_b r) (theta_s r) (Tcline r) (length (sigma r)))
           (np_arange (indz_min_of zbuffer zmaxs zlo)
              (indz_max_of zbuffer (length (sigma r)) zmins (Max (set z)) + 1)) = Inr rows"
    and "zv = ZProfile rows"
proof -
  from assms(3) vertical_general_eq [OF assms(1,2), of e r indx indy]
  obtain r1 where l: "load_sea_floor_depth r = Inr r1" and r1: "r1 = r'"
    and g: "general_depth e r1 indx indy zlo (Max (set z)) = Inr (indz, zv)"
    by (auto split: sum.splits)
  from l obtain h where h: "sea_floor_depth r1 = Some h" "r1 = r\<lparr>sea_floor_depth := Some h\<rparr>"
    "sea_floor_depth r = Some h \<or> (sea_floor_depth r = None \<and> var_h (Dataset r) = Some h)"
    by (rule load_sea_floor_depth_InrD)
  from g obtain h' depth zmins zmaxs rows where
    a: "sea_floor_depth r1 = Some h'" "pair_index h' indy indx = Inr depth"
    "zmins_of (vgrid e (s_coord r1) depth (theta_b r1) (theta_s r1) (Tcline r1) (length (sigma r1)))
           = Inr zmins"
    "zmaxs_of (vgrid e (s_coord r1) depth (theta_b r1) (theta_s r1) (Tcline r1) (length (sigma r1)))
           = Inr zmaxs"
    "indz = Layers (np_arange (indz_min_of zbuffer zmaxs zlo)
                          (indz_max_of zbuffer (length (sigma r1)) zmins (Max (set z)) + 1))"
    "take_rows (vgrid e (s_coord r1) depth (theta_b r1) (theta_s r1) (Tcline r1) (length (sigma r1)))
           (np_arange (indz_min_of zbuffer zmaxs zlo)
              (indz_max_of zbuffer (length (sigma r1)) zmins (Max (set z)) + 1)) = Inr rows"
    "zv = ZProfile rows"
    by (rule general_depth_InrD)
  have same: "s_coord r1 = s_coord r" "theta_b r1 = theta_b r" "theta_s r1 = theta_s r"
    "Tcline r1 = Tcline r" "sigma r1 = sigma r"
    using h(2) by simp_all
  from a h(1) have "h' = h" by simp
  with a h r1 show ?thesis
    unfolding same by (intro that [of h depth zmins zmaxs rows]) simp_all
qed

lemma get_variables_vertical:
  assumes "get_variables e r q block = (r', Inr res)"
  shows "\<exists>indz. vertical e r (map (floor_index (xmin r) (delta_x r)) (qx q))
                   (map (floor_index (ymin r) (delta_y r)) (qy q)) (qz q)
                 = (r', Inr (indz, res_z res))"
  using assms by (rule get_variables_InrD) simp

text \<open>
  Claim C2 (amended).  \<^verbatim>\<open>get_variables\<close> takes the surface path exactly when the smallest
  requested depth is 0: it then leaves the reader as it is (no bottom depth is read, no
  transform is called), resolves the vertical index to the single layer \<open>num_layers - 1\<close>
  and returns the requested depths unchanged under \<^verbatim>\<open>z\<close>.  An empty array of depths
  raises.  For every other query the general depth search runs instead: the bottom depth is
  loaded if it is not cached, gathered at the query columns and passed to the sigma transform,
  and a successful call returns the range of layers between the two bounds of the search
  together with the rows of the profile for these layers.  For a non-empty array of depths
  that are all at most 0, the smallest depth is 0 exactly when every depth is 0.
\<close>

theorem surface_fast_path:
  "(z = [] \<longrightarrow> vertical e r indx indy z = (r, Inl ValueError)) \<and>
   (np_min z = Inr 0 \<longrightarrow>
      vertical e r indx indy z = (r, Inr (Layer (int (num_layers r) - 1), ZEcho z))) \<and>
   (np_min z = Inr zlo \<and> zlo \<noteq> 0 \<longrightarrow>
      vertical e r indx indy z =
        (case load_sea_floor_depth r of
           Inl err \<Rightarrow> (r, Inl err)
         | Inr r1 \<Rightarrow> (r1, general_depth e r1 indx indy zlo (Max (set z))))) \<and>
   (np_min z = Inr zlo \<and> zlo \<noteq> 0 \<and> vertical e r indx indy z = (r', Inr (indz, zv)) \<longrightarrow>
      (\<exists>h depth zmins zmaxs rows.
         sea_floor_depth r' = Some h \<and>
         (sea_floor_depth r = Some h \<or> (sea_floor_depth r = None \<and> var_h (Dataset r) = Some h)) \<and>
         pair_index h indy indx = Inr depth \<and>
         zmins_of (vgrid e (s_coord r) depth (theta_b r) (theta_s r) (Tcline r) (length (sigma r)))
           = Inr zmins \<and>
         zmaxs_of (vgrid e (s_coord r) depth (theta_b r) (theta_s r) (Tcline r) (length (sigma r)))
           = Inr zmaxs \<and>
         indz = Layers (np_arange (indz_min_of zbuffer zmaxs zlo)
                          (indz_max_of zbuffer (length (sigma r)) zmins (Max (set z)) + 1)) \<and>
         take_rows (vgrid e (s_coord r) depth (theta_b r) (theta_s r) (Tcline r) (length (sigma r)))
           (np_arange (indz_min_of zbuffer zmaxs zlo)
              (indz_max_of zbuffer (length (sigma r)) zmins (Max (set z)) + 1)) = Inr rows \<and>
         zv = ZProfile rows)) \<and>
   (z \<noteq> [] \<and> (\<forall>v\<in>set z. v \<le> 0) \<longrightarrow> (np_min z = Inr 0 \<longleftrightarrow> (\<forall>v\<in>set z. v = 0))) \<and>
   (get_variables e r q block = (r'', Inr res) \<longrightarrow>
      (\<exists>iz. vertical e r (map (floor_index (xmin r) (delta_x r)) (qx q))
               (map (floor_index (ymin r) (delta_y r)) (qy q)) (qz q)
             = (r'', Inr (iz, res_z res)))) \<and>
   (np_min (qz q) = Inr 0 \<and> get_variables e r q block = (r'', Inr res) \<longrightarrow>
      r'' = r \<and> res_z res = ZEcho (qz q))"
proof -
  have empty: "vertical e r indx indy z = (r, Inl ValueError)" if "z = []"
    using that by (simp add: vertical_def)
  have general: "\<exists>h depth zmins zmaxs rows.
         sea_floor_depth r' = Some h \<and>
         (sea_floor_depth r = Some h \<or> (sea_floor_depth r = None \<and> var_h (Dataset r) = Some h)) \<and>
         pair_index h indy indx = Inr depth \<and>
         zmins_of (vgrid e (s_coord r) depth (theta_b r) (theta_s r) (Tcline r) (length (sigma r)))
           = Inr zmins \<and>
         zmaxs_of (vgrid e (s_coord r) depth (theta_b r) (theta_s r) (Tcline r) (length (sigma r)))
           = Inr zmaxs \<and>
         indz = Layers (np_arange (indz_min_of zbuffer zmaxs zlo)
                          (indz_max_of zbuffer (length (sigma r)) zmins (Max (set z)) + 1)) \<and>
         take_rows (vgrid e (s_coord r) depth (theta_b r) (theta_s r) (Tcline r) (length (sigma r)))
           (np_arange (indz_min_of zbuffer zmaxs zlo)
              (indz_max_of zbuffer (length (sigma r)) zmins (Max (set z)) + 1)) = Inr rows \<and>
         zv = ZProfile rows"
    if "np_min z = Inr zlo" "zlo \<noteq> 0" "vertical e r indx indy z = (r', Inr (indz, zv))"
    using that by (rule vertical_general_InrD) blast
  have surface: "r'' = r \<and> res_z res = ZEcho (qz q)"
    if z0: "np_min (qz q) = Inr 0" and g: "get_variables e r q block = (r'', Inr res)"
    using get_variables_vertical [OF g] vertical_surface [OF z0, of e r] by auto
  have link: "\<exists>iz. vertical e r (map (floor_index (xmin r) (delta_x r)) (qx q))
               (map (floor_index (ymin r) (delta_y r)) (qy q)) (qz q)
             = (r'', Inr (iz, res_z res))"
    if "get_variables e r q block = (r'', Inr res)"
    using that by (rule get_variables_vertical)
  have eq: "vertical e r indx indy z =
        (case load_sea_floor_depth r of
           Inl err \<Rightarrow> (r, Inl err)
         | Inr r1 \<Rightarrow> (r1, general_depth e r1 indx indy zlo (Max (set z))))"
    if "np_min z = Inr zlo" "zlo \<noteq> 0"
    using that by (rule vertical_general_eq)
  have conv: "np_min z = Inr 0 \<longleftrightarrow> (\<forall>v\<in>set z. v = 0)" if "z \<noteq> []" "\<forall>v\<in>set z. v \<le> 0"
    using that by (rule np_min_zero_iff)
  have top: "vertical e r indx indy z = (r, Inr (Layer (int (num_layers r) - 1), ZEcho z))"
    if "np_min z = Inr 0"
    using that by (rule vertical_surface)
  show ?thesis
    apply (intro conjI impI)
    subgoal by (rule empty)
    subgoal by (rule top)
    subgoal by (rule eq) simp_all
    subgoal by (rule general) simp_all
    subgoal by (rule conv) simp_all
    subgoal by (rule link)
    subgoal using surface by simp
    subgoal using surface by simp
    done
qed

theorem surface_fast_path_witness:
  "np_min [0, 0] = Inr 0 \<and> [0, 0 :: real] \<noteq> [] \<and>
   vertical example_env example_reader [1, 7] [2, 4] [0, 0] =
     (example_reader, Inr (Layer 4, ZEcho [0, 0])) \<and>
   get_variables example_env example_reader example_query False =
     (example_reader, Inr example_result) \<and>
   res_z example_result = ZEcho [0, 0] \<and>
   np_min [- 50, - 50] = Inr (- 50) \<and>
   vertical example_env example_reader [1, 7] [2, 4] [- 50, - 50] =
     (example_reader\<lparr>sea_floor_depth := var_h example_dataset\<rparr>,
      Inr (Layers [0, 1, 2, 3, 4],
           ZProfile [[- 90, - 90], [- 70, - 70], [- 50, - 50], [- 30, - 30], [- 10, - 10]]))"
proof -
  have q: "qz example_query = [0, 0]" by (simp add: example_query_def)
  have z0: "np_min [0, 0] = Inr 0" by simp
  have n: "num_layers example_reader = 5" by (simp add: example_reader_eq)
  have top: "vertical example_env example_reader [1, 7] [2, 4] [0, 0] =
       (example_reader, Inr (Layer 4, ZEcho [0, 0])) \<and>
     res_z example_result = ZEcho [0, 0]"
    using surface_fast_path [where z="[0, 0]" and e=example_env and r=example_reader
        and indx="[1, 7]" and indy="[2, 4]" and q=example_query and block=False
        and r''=example_reader and res=example_result]
      example_run q z0 n by simp
  have u: "[0..<5] = [0, 1, 2, 3, 4::nat]" "[0..4] = [0, 1, 2, 3, 4::int]" by code_simp+
  have b: "bisect_left [- 90, - 70, - 50, - 30, - 10] (- 50) = 2"
    by (simp add: bisect_left_def bisect_loop.simps)
  have z: "np_min [- 50, - 50] = Inr (- 50)" "(- 50 :: real) \<noteq> 0" by simp_all
  have l: "load_sea_floor_depth example_reader =
      Inr (example_reader\<lparr>sea_floor_depth := var_h example_dataset\<rparr>)"
    by (simp add: load_sea_floor_depth_def example_reader_eq example_dataset_def)
  have g: "general_depth example_env (example_reader\<lparr>sea_floor_depth := var_h example_dataset\<rparr>)
      [1, 7] [2, 4] (- 50) (- 50) =
      Inr (Layers [0, 1, 2, 3, 4],
           ZProfile [[- 90, - 90], [- 70, - 70], [- 50, - 50], [- 30, - 30], [- 10, - 10]])"
    by (simp add: example_reader_eq example_dataset_def u b in_axis_def wrap_def
        general_depth_def pair_index_def example_env_def example_vgrid_def
        depth_search_def zmins_of_def zmaxs_of_def indz_min_of_def indz_max_of_def zbuffer_def
        take_rows_def np_arange_def)
  have deep: "vertical example_env example_reader [1, 7] [2, 4] [- 50, - 50] =
     (example_reader\<lparr>sea_floor_depth := var_h example_dataset\<rparr>,
      Inr (Layers [0, 1, 2, 3, 4],
           ZProfile [[- 90, - 90], [- 70, - 70], [- 50, - 50], [- 30, - 30], [- 10, - 10]]))"
    using surface_fast_path [where z="[- 50, - 50]" and zlo="- 50" and e=example_env
        and r=example_reader and indx="[1, 7]" and indy="[2, 4]"] z l g
    by simp
  from top deep z0 z example_run show ?thesis by simp
qed

text \<open>
  The test of the source is on the smallest depth only: a query that mixes the depth 0 with a
  positive depth takes the surface path as well.
\<close>

theorem surface_fast_path_counterexample:
  "vertical example_env example_reader [1, 7] [2, 4] [0, 5] =
     (example_reader, Inr (Layer 4, ZEcho [0, 5])) \<and> (5 :: real) \<noteq> 0"
  by (simp add: vertical_def example_reader_eq)

section \<open>The bounds of the general depth search\<close>

lemma bounds_unfolded:
  "indz_min_of zbuffer zmaxs zlo = max 0 (int (bisect_left zmaxs zlo) - 2)"
  "indz_max_of zbuffer nsig zmins zhi = min (int nsig - 1) (int (bisect_left zmins zhi) + 2)"
  by (simp_all add: indz_min_of_def indz_max_of_def zbuffer_def)

lemma bounds_clamped:
  "0 \<le> indz_min_of zbuffer zmaxs zlo"
  "indz_max_of zbuffer nsig zmins zhi \<le> int nsig - 1"
  "1 \<le> nsig \<Longrightarrow> 0 \<le> indz_max_of zbuffer nsig zmins zhi"
  "length zmaxs = nsig \<Longrightarrow> 1 \<le> nsig \<Longrightarrow> indz_min_of zbuffer zmaxs zlo \<le> int nsig - 1"
  using bisect_left_le [of zmaxs zlo]
  by (auto simp: bounds_unfolded)

lemma depth_cover:
  assumes zp: "zmins_of zp = Inr zmins" "zmaxs_of zp = Inr zmaxs"
    and srt: "sorted zmins" "sorted zmaxs"
    and n: "length zp = nsig" "1 \<le> nsig"
    and zs: "np_min zs = Inr zlo"
    and rng: "\<forall>z\<in>set zs. zmins ! 0 \<le> z \<and> z \<le> zmaxs ! (nsig - 1)"
    and z: "z \<in> set zs"
  shows "zmins ! nat (indz_min_of 0 zmaxs zlo) \<le> z \<and>
         z \<le> zmaxs ! nat (indz_max_of 0 nsig zmins (Max (set zs)))"
proof
  define bl where "bl = bisect_left zmaxs zlo"
  define bu where "bu = bisect_left zmins (Max (set zs))"
  have len: "length zmins = nsig" "length zmaxs = nsig"
    using zmins_le_zmaxs(1,2) [OF zp] n by simp_all
  have le: "\<And>i. i < nsig \<Longrightarrow> zmins ! i \<le> zmaxs ! i"
    using zmins_le_zmaxs(3) [OF zp] n by simp
  have bl: "bl \<le> nsig" "\<And>i. i < bl \<Longrightarrow> zmaxs ! i < zlo"
    using bisect_left_sorted(1,2) [OF srt(2), where v=zlo] len by (simp_all add: bl_def)
  have bu: "\<And>i. bu \<le> i \<Longrightarrow> i < nsig \<Longrightarrow> Max (set zs) \<le> zmins ! i"
    using bisect_left_sorted(3) [OF srt(1), where v="Max (set zs)"] len by (simp add: bu_def)
  have zb: "zlo \<le> z" "z \<le> Max (set zs)"
    using zs z by (simp_all add: np_min_Inr)
  show "zmins ! nat (indz_min_of 0 zmaxs zlo) \<le> z"
  proof (cases "bl = 0")
    case True
    then show ?thesis using rng z by (simp add: indz_min_of_def bl_def)
  next
    case False
    then have i: "nat (indz_min_of 0 zmaxs zlo) = bl - 1" "bl - 1 < bl" "bl - 1 < nsig"
      using bl(1) by (auto simp: indz_min_of_def bl_def)
    have "zmins ! (bl - 1) \<le> zmaxs ! (bl - 1)" using le i(3) by simp
    also have "\<dots> < zlo" using bl(2) i(2) by simp
    also have "\<dots> \<le> z" using zb by simp
    finally show ?thesis using i(1) by simp
  qed
  show "z \<le> zmaxs ! nat (indz_max_of 0 nsig zmins (Max (set zs)))"
  proof (cases "bu + 1 < nsig")
    case True
    then have i: "nat (indz_max_of 0 nsig zmins (Max (set zs))) = bu + 1"
      by (auto simp: indz_max_of_def bu_def)
    have "z \<le> Max (set zs)" using zb by simp
    also have "\<dots> \<le> zmins ! (bu + 1)" using bu [of "bu + 1"] True by simp
    also have "\<dots> \<le> zmaxs ! (bu + 1)" using le True by simp
    finally show ?thesis using i by simp
  next
    case False
    then have "nat (indz_max_of 0 nsig zmins (Max (set zs))) = nsig - 1"
      using n(2) by (auto simp: indz_max_of_def bu_def)
    then show ?thesis using rng z by simp
  qed
qed

lemma depth_width:
  assumes zp: "zmins_of zp = Inr zmins" "zmaxs_of zp = Inr zmaxs"
    and srt: "sorted zmins" "sorted zmaxs"
    and n: "length zp = nsig" "2 \<le> nsig"
    and zs: "np_min zs = Inr zlo"
  shows "1 \<le> indz_max_of zbuffer nsig zmins (Max (set zs)) - indz_min_of zbuffer zmaxs zlo"
proof -
  have zs': "zs \<noteq> []" "zlo = Min (set zs)" using zs by (simp_all add: np_min_Inr)
  then have "zlo \<le> Max (set zs)"
    using Min_le [of "set zs" "hd zs"] Max_ge [of "set zs" "hd zs"] by simp
  then have "bisect_left zmaxs zlo \<le> bisect_left zmins (Max (set zs))"
    by (rule bisect_order [OF zp srt])
  moreover have "bisect_left zmaxs zlo \<le> nsig"
    using bisect_left_le [of zmaxs zlo] zmins_le_zmaxs(2) [OF zp] n(1) by simp
  ultimately show ?thesis
    using n(2) by (simp add: bounds_unfolded min_def max_def)
qed

text \<open>
  Claim C1 (amended).  In the general depth search of \<^verbatim>\<open>get_variables\<close> the bottom depth
  at the query columns goes through the sigma transform, \<open>zmins\<close> and \<open>zmaxs\<close> are the minima
  and maxima of its rows, the lower bound is \<open>max 0 (b\<^sub>l - 2)\<close> and the upper bound
  \<open>min (num_layers - 1) (b\<^sub>u + 2)\<close>, where \<open>b\<^sub>l\<close> is the result of \<^verbatim>\<open>bisect_left\<close> for the
  smallest requested depth in \<open>zmaxs\<close> and \<open>b\<^sub>u\<close> that for the largest requested depth in
  \<open>zmins\<close> (each bound is one step beyond the insertion point plus a buffer of one layer), and
  the result holds the rows of the profile between the two bounds.  The lower bound is never
  negative and the upper bound never above \<open>num_layers - 1\<close>; with at least one layer the
  upper bound is not negative, and when the profile has \<open>num_layers\<close> rows the lower bound is
  at most \<open>num_layers - 1\<close>.  On non-decreasing \<open>zmaxs\<close> and \<open>zmins\<close> the two insertion points
  are the leftmost ones.  When moreover the profile has \<open>num_layers\<close> rows and every requested
  depth lies between \<open>zmins[0]\<close> and \<open>zmaxs[num_layers - 1]\<close>, every requested depth lies
  between \<open>zmins\<close> at the lower bound and \<open>zmaxs\<close> at the upper bound computed with a buffer
  of 0; and with two layers or more the upper bound exceeds the lower bound by at least 1.
\<close>

theorem general_depth_search:
  assumes run: "get_variables e r q block = (r', Inr res)"
    and zlo: "np_min (qz q) = Inr zlo" and nz: "zlo \<noteq> 0"
  shows "\<exists>h depth zp zmins zmaxs rows.
    sea_floor_depth r' = Some h \<and>
    pair_index h (map (floor_index (ymin r) (delta_y r)) (qy q))
      (map (floor_index (xmin r) (delta_x r)) (qx q)) = Inr depth \<and>
    zp = vgrid e (s_coord r) depth (theta_b r) (theta_s r) (Tcline r) (length (sigma r)) \<and>
    zmins_of zp = Inr zmins \<and> zmaxs_of zp = Inr zmaxs \<and>
    indz_min_of zbuffer zmaxs zlo = max 0 (int (bisect_left zmaxs zlo) - 2) \<and>
    indz_max_of zbuffer (length (sigma r)) zmins (Max (set (qz q))) =
      min (int (length (sigma r)) - 1) (int (bisect_left zmins (Max (set (qz q)))) + 2) \<and>
    take_rows zp (np_arange (indz_min_of zbuffer zmaxs zlo)
        (indz_max_of zbuffer (length (sigma r)) zmins (Max (set (qz q))) + 1)) = Inr rows \<and>
    res_z res = ZProfile rows \<and>
    0 \<le> indz_min_of zbuffer zmaxs zlo \<and>
    indz_max_of zbuffer (length (sigma r)) zmins (Max (set (qz q))) \<le> int (length (sigma r)) - 1 \<and>
    (1 \<le> length (sigma r) \<longrightarrow>
       0 \<le> indz_max_of zbuffer (length (sigma r)) zmins (Max (set (qz q)))) \<and>
    (length zp = length (sigma r) \<and> 1 \<le> length (sigma r) \<longrightarrow>
       indz_min_of zbuffer zmaxs zlo \<le> int (length (sigma r)) - 1) \<and>
    (sorted zmaxs \<longrightarrow>
       (\<forall>i<bisect_left zmaxs zlo. zmaxs ! i < zlo) \<and>
       (\<forall>i. bisect_left zmaxs zlo \<le> i \<and> i < length zmaxs \<longrightarrow> zlo \<le> zmaxs ! i)) \<and>
    (sorted zmins \<longrightarrow>
       (\<forall>i<bisect_left zmins (Max (set (qz q))). zmins ! i < Max (set (qz q))) \<and>
       (\<forall>i. bisect_left zmins (Max (set (qz q))) \<le> i \<and> i < length zmins
            \<longrightarrow> Max (set (qz q)) \<le> zmins ! i)) \<and>
    (sorted zmins \<and> sorted zmaxs \<and> length zp = length (sigma r) \<and> 1 \<le> length (sigma r) \<and>
     (\<forall>z\<in>set (qz q). zmins ! 0 \<le> z \<and> z \<le> zmaxs ! (length (sigma r) - 1)) \<longrightarrow>
       (\<forall>z\<in>set (qz q).
          zmins ! nat (indz_min_of 0 zmaxs zlo) \<le> z \<and>
          z \<le> zmaxs ! nat (indz_max_of 0 (length (sigma r)) zmins (Max (set (qz q)))))) \<and>
    (sorted zmins \<and> sorted zmaxs \<and> length zp = length (sigma r) \<and> 2 \<le> length (sigma r) \<longrightarrow>
       1 \<le> indz_max_of zbuffer (length (sigma r)) zmins (Max (set (qz q)))
            - indz_min_of zbuffer zmaxs zlo)"
proof -
  define ix where "ix = map (floor_index (xmin r) (delta_x r)) (qx q)"
  define iy where "iy = map (floor_index (ymin r) (delta_y r)) (qy q)"
  define n where "n = length (sigma r)"
  define zhi where "zhi = Max (set (qz q))"
  from get_variables_vertical [OF run] obtain indz where
    v: "vertical e r ix iy (qz q) = (r', Inr (indz, res_z res))"
    unfolding ix_def iy_def by blast
  from zlo nz v obtain h depth zmins zmaxs rows where
    h: "sea_floor_depth r' = Some h" and d: "pair_index h iy ix = Inr depth"
    and mins: "zmins_of (vgrid e (s_coord r) depth (theta_b r) (theta_s r) (Tcline r) n) = Inr zmins"
    and maxs: "zmaxs_of (vgrid e (s_coord r) depth (theta_b r) (theta_s r) (Tcline r) n) = Inr zmaxs"
    and rows: "take_rows (vgrid e (s_coord r) depth (theta_b r) (theta_s r) (Tcline r) n)
           (np_arange (indz_min_of zbuffer zmaxs zlo) (indz_max_of zbuffer n zmins zhi + 1))
           = Inr rows"
    and rz: "res_z res = ZProfile rows"
    unfolding n_def zhi_def by (rule vertical_general_InrD)
  define zp where "zp = vgrid e (s_coord r) depth (theta_b r) (theta_s r) (Tcline r) n"
  note mins = mins [folded zp_def] and maxs = maxs [folded zp_def] and rows = rows [folded zp_def]
  have lenmax: "length zmaxs = length zp"
    using zmins_le_zmaxs(2) [OF mins maxs] .
  have c4: "indz_min_of zbuffer zmaxs zlo \<le> int n - 1" if "length zp = n \<and> 1 \<le> n"
    using that lenmax bounds_clamped(4) [of zmaxs n zlo] by simp
  have left_max: "(\<forall>i<bisect_left zmaxs zlo. zmaxs ! i < zlo) \<and>
       (\<forall>i. bisect_left zmaxs zlo \<le> i \<and> i < length zmaxs \<longrightarrow> zlo \<le> zmaxs ! i)"
    if "sorted zmaxs"
    using bisect_left_sorted(2,3) [OF that, where v=zlo] by blast
  have left_min: "(\<forall>i<bisect_left zmins zhi. zmins ! i < zhi) \<and>
       (\<forall>i. bisect_left zmins zhi \<le> i \<and> i < length zmins \<longrightarrow> zhi \<le> zmins ! i)"
    if "sorted zmins"
    using bisect_left_sorted(2,3) [OF that, where v=zhi] by blast
  have cover: "\<forall>z\<in>set (qz q).
          zmins ! nat (indz_min_of 0 zmaxs zlo) \<le> z \<and>
          z \<le> zmaxs ! nat (indz_max_of 0 n zmins zhi)"
    if "sorted zmins \<and> sorted zmaxs \<and> length zp = n \<and> 1 \<le> n \<and>
        (\<forall>z\<in>set (qz q). zmins ! 0 \<le> z \<and> z \<le> zmaxs ! (n - 1))"
    using that depth_cover [OF mins maxs _ _ _ _ zlo, of n] unfolding zhi_def by blast
  have width: "1 \<le> indz_max_of zbuffer n zmins zhi - indz_min_of zbuffer zmaxs zlo"
    if "sorted zmins \<and> sorted zmaxs \<and> length zp = n \<and> 2 \<le> n"
    using that depth_width [OF mins maxs _ _ _ _ zlo, of n] unfolding zhi_def by blast
  have big: "sea_floor_depth r' = Some h \<and>
    pair_index h iy ix = Inr depth \<and>
    zp = vgrid e (s_coord r) depth (theta_b r) (theta_s r) (Tcline r) n \<and>
    zmins_of zp = Inr zmins \<and> zmaxs_of zp = Inr zmaxs \<and>
    indz_min_of zbuffer zmaxs zlo = max 0 (int (bisect_left zmaxs zlo) - 2) \<and>
    indz_max_of zbuffer n zmins zhi = min (int n - 1) (int (bisect_left zmins zhi) + 2) \<and>
    take_rows zp (np_arange (indz_min_of zbuffer zmaxs zlo)
        (indz_max_of zbuffer n zmins zhi + 1)) = Inr rows \<and>
    res_z res = ZProfile rows \<and>
    0 \<le> indz_min_of zbuffer zmaxs zlo \<and>
    indz_max_of zbuffer n zmins zhi \<le> int n - 1 \<and>
    (1 \<le> n \<longrightarrow> 0 \<le> indz_max_of zbuffer n zmins zhi) \<and>
    (length zp = n \<and> 1 \<le> n \<longrightarrow> indz_min_of zbuffer zmaxs zlo \<le> int n - 1) \<and>
    (sorted zmaxs \<longrightarrow>
       (\<forall>i<bisect_left zmaxs zlo. zmaxs ! i < zlo) \<and>
       (\<forall>i. bisect_left zmaxs zlo \<le> i \<and> i < length zmaxs \<longrightarrow> zlo \<le> zmaxs ! i)) \<and>
    (sorted zmins \<longrightarrow>
       (\<forall>i<bisect_left zmins zhi. zmins ! i < zhi) \<and>
       (\<forall>i. bisect_left zmins zhi \<le> i \<and> i < length zmins \<longrightarrow> zhi \<le> zmins ! i)) \<and>
    (sorted zmins \<and> sorted zmaxs \<and> length zp = n \<and> 1 \<le> n \<and>
     (\<forall>z\<in>set (qz q). zmins ! 0 \<le> z \<and> z \<le> zmaxs ! (n - 1)) \<longrightarrow>
       (\<forall>z\<in>set (qz q).
          zmins ! nat (indz_min_of 0 zmaxs zlo) \<le> z \<and>
          z \<le> zmaxs ! nat (indz_max_of 0 n zmins zhi))) \<and>
    (sorted zmins \<and> sorted zmaxs \<and> length zp = n \<and> 2 \<le> n \<longrightarrow>
       1 \<le> indz_max_of zbuffer n zmins zhi - indz_min_of zbuffer zmaxs zlo)"
    apply (intro conjI impI)
    subgoal by (rule h)
    subgoal by (rule d)
    subgoal by (rule zp_def)
    subgoal by (rule mins)
    subgoal by (rule maxs)
    subgoal by (rule bounds_unfolded(1))
    subgoal by (rule bounds_unfolded(2))
    subgoal by (rule rows)
    subgoal by (rule rz)
    subgoal by (rule bounds_clamped(1))
    subgoal by (rule bounds_clamped(2))
    subgoal by (rule bounds_clamped(3))
    subgoal by (rule c4)
    subgoal using left_max by blast
    subgoal using left_max by blast
    subgoal using left_min by blast
    subgoal using left_min by blast
    subgoal by (rule cover)
    subgoal by (rule width)
    done
  show ?thesis
    unfolding ix_def [symmetric] iy_def [symmetric] n_def [symmetric] zhi_def [symmetric]
    by (intro exI) (rule big)
qed

lemma nine_reader_eq:
  "nine_reader = example_reader\<lparr>Dataset := nine_dataset, sigma := synth_sigma 9, num_layers := 9\<rparr>"
proof -
  have "[0..<5] = [0, 1, 2, 3, 4::nat]" by code_simp
  then show ?thesis
    unfolding nine_reader_def example_reader_eq
    by (simp add: init_def nine_env_def example_env_def init_fields_def nine_dataset_def
        example_dataset_def read_sigma_def read_stretching_def Let_def select_family_def
        catalogue_def ROMS_variable_mapping_def)
qed

lemma nine_profile:
  "example_vgrid fam [90, 90] tb ts tc 9 =
     [[- 85, - 85], [- 75, - 75], [- 65, - 65], [- 55, - 55], [- 45, - 45], [- 35, - 35],
      [- 25, - 25], [- 15, - 15], [- 5, - 5]]"
proof -
  have "[0..<9] = [0, 1, 2, 3, 4, 5, 6, 7, 8::nat]" by code_simp
  then show ?thesis by (simp add: example_vgrid_def)
qed

lemma nine_bisect:
  "bisect_left [- 85, - 75, - 65, - 55, - 45, - 35, - 25, - 15, - 5] (- 45) = 4"
  "bisect_left [- 85, - 75, - 65, - 55, - 45, - 35, - 25, - 15, - 5] (- 42) = 5"
  by (simp_all add: bisect_left_def bisect_loop.simps)

lemma nine_run:
  "get_variables nine_env nine_reader nine_query False =
     (nine_reader\<lparr>sea_floor_depth := var_h nine_dataset\<rparr>, Inr nine_result)"
proof -
  have u: "[2..7] = [2, 3, 4, 5, 6, 7::int]" by code_simp
  show ?thesis
    unfolding nine_result_def
    by (simp add: nine_reader_eq example_reader_eq model_defs nine_query_def
        example_deep_query_def nine_dataset_def nine_env_def u nine_profile nine_bisect wrap_def
        load_sea_floor_depth_def general_depth_def pair_index_def example_env_def
        depth_search_def zmins_of_def zmaxs_of_def indz_min_of_def indz_max_of_def zbuffer_def
        take_rows_def)
qed

theorem general_depth_search_witness:
  "get_variables nine_env nine_reader nine_query False =
     (nine_reader\<lparr>sea_floor_depth := var_h nine_dataset\<rparr>, Inr nine_result) \<and>
   np_min (qz nine_query) = Inr (- 45) \<and> Max (set (qz nine_query)) = - 42 \<and>
   res_z nine_result =
     ZProfile [[- 65, - 65], [- 55, - 55], [- 45, - 45], [- 35, - 35], [- 25, - 25], [- 15, - 15]] \<and>
   indz_min_of zbuffer [- 85, - 75, - 65, - 55, - 45, - 35, - 25, - 15, - 5] (- 45) = 2 \<and>
   indz_max_of zbuffer 9 [- 85, - 75, - 65, - 55, - 45, - 35, - 25, - 15, - 5] (- 42) = 7 \<and>
   indz_min_of 0 [- 85, - 75, - 65, - 55, - 45, - 35, - 25, - 15, - 5] (- 45) = 3 \<and>
   indz_max_of 0 9 [- 85, - 75, - 65, - 55, - 45, - 35, - 25, - 15, - 5] (- 42) = 6 \<and>
   1 \<le> indz_max_of zbuffer 9 [- 85, - 75, - 65, - 55, - 45, - 35, - 25, - 15, - 5] (- 42)
       - indz_min_of zbuffer [- 85, - 75, - 65, - 55, - 45, - 35, - 25, - 15, - 5] (- 45) \<and>
   qz nine_query = [- 45, - 42] \<and>
   [- 85, - 75, - 65, - 55, - 45, - 35, - 25, - 15, - 5] ! 3 \<le> (- 45 :: real) \<and>
   (- 45 :: real) \<le> [- 85, - 75, - 65, - 55, - 45, - 35, - 25, - 15, - 5] ! 6 \<and>
   [- 85, - 75, - 65, - 55, - 45, - 35, - 25, - 15, - 5] ! 3 \<le> (- 42 :: real) \<and>
   (- 42 :: real) \<le> [- 85, - 75, - 65, - 55, - 45, - 35, - 25, - 15, - 5] ! 6"
proof -
  define Z :: "real list" where "Z = [- 85, - 75, - 65, - 55, - 45, - 35, - 25, - 15, - 5]"
  have q: "qz nine_query = [- 45, - 42]" "qx nine_query = [3/2, 7]" "qy nine_query = [5/2, 4]"
    by (simp_all add: nine_query_def example_deep_query_def example_query_def)
  have zlo: "np_min (qz nine_query) = Inr (- 45)" and zhi: "Max (set (qz nine_query)) = - 42"
    by (simp_all add: q)
  have nz: "(- 45 :: real) \<noteq> 0" by simp
  have r: "xmin nine_reader = 0" "delta_x nine_reader = 1" "ymin nine_reader = 0"
    "delta_y nine_reader = 1" "length (sigma nine_reader) = 9"
    by (simp_all add: nine_reader_eq example_reader_eq)
  have ix: "map (floor_index 0 1) (qx nine_query) = [1, 7]"
    and iy: "map (floor_index 0 1) (qy nine_query) = [2, 4]"
    by (simp_all add: q floor_index_eq)
  have v: "vgrid nine_env = example_vgrid" by (simp add: nine_env_def example_env_def)
  from general_depth_search [OF nine_run zlo nz]
  obtain h depth zp zmins zmaxs rows where
    h: "sea_floor_depth (nine_reader\<lparr>sea_floor_depth := var_h nine_dataset\<rparr>) = Some h"
    and d: "pair_index h [2, 4] [1, 7] = Inr depth"
    and zp: "zp = example_vgrid (s_coord nine_reader) depth (theta_b nine_reader)
                   (theta_s nine_reader) (Tcline nine_reader) 9"
    and mins: "zmins_of zp = Inr zmins" and maxs: "zmaxs_of zp = Inr zmaxs"
    and rows: "take_rows zp (np_arange (indz_min_of zbuffer zmaxs (- 45))
        (indz_max_of zbuffer 9 zmins (- 42) + 1)) = Inr rows"
    and rz: "res_z nine_result = ZProfile rows"
    and cover: "sorted zmins \<and> sorted zmaxs \<and> length zp = 9 \<and> 1 \<le> (9::nat) \<and>
       (\<forall>z\<in>set (qz nine_query). zmins ! 0 \<le> z \<and> z \<le> zmaxs ! (9 - 1)) \<longrightarrow>
       (\<forall>z\<in>set (qz nine_query).
          zmins ! nat (indz_min_of 0 zmaxs (- 45)) \<le> z \<and>
          z \<le> zmaxs ! nat (indz_max_of 0 9 zmins (- 42)))"
    and width: "sorted zmins \<and> sorted zmaxs \<and> length zp = 9 \<and> 2 \<le> (9::nat) \<longrightarrow>
       1 \<le> indz_max_of zbuffer 9 zmins (- 42) - indz_min_of zbuffer zmaxs (- 45)"
    unfolding r ix iy zhi v by (elim exE conjE) (rule that; assumption)
  from h have "h = \<lparr> h_rows = 10, h_cols = 10, h_at = (\<lambda>j i. 90) \<rparr>"
    by (simp add: nine_dataset_def)
  with d have "depth = [90, 90]"
    by (simp add: pair_index_def in_axis_def wrap_def)
  with zp have zp': "zp = [[- 85, - 85], [- 75, - 75], [- 65, - 65], [- 55, - 55], [- 45, - 45],
      [- 35, - 35], [- 25, - 25], [- 15, - 15], [- 5, - 5]]"
    by (simp add: nine_profile)
  from mins maxs have zz: "zmins = Z" "zmaxs = Z"
    by (simp_all add: zp' zmins_of_def zmaxs_of_def Z_def)
  have b: "indz_min_of zbuffer Z (- 45) = 2" "indz_max_of zbuffer 9 Z (- 42) = 7"
    "indz_min_of 0 Z (- 45) = 3" "indz_max_of 0 9 Z (- 42) = 6"
    by (simp_all add: indz_min_of_def indz_max_of_def zbuffer_def Z_def nine_bisect)
  have u: "[2..7] = [2, 3, 4, 5, 6, 7::int]" by code_simp
  from rows have "rows =
     [[- 65, - 65], [- 55, - 55], [- 45, - 45], [- 35, - 35], [- 25, - 25], [- 15, - 15]]"
    by (simp add: zz b zp' take_rows_def np_arange_def u)
  with rz have rz': "res_z nine_result =
     ZProfile [[- 65, - 65], [- 55, - 55], [- 45, - 45], [- 35, - 35], [- 25, - 25], [- 15, - 15]]"
    by simp
  have pre: "sorted Z \<and> sorted Z \<and> length zp = 9 \<and> 1 \<le> (9::nat) \<and>
       (\<forall>z\<in>set (qz nine_query). Z ! 0 \<le> z \<and> z \<le> Z ! (9 - 1))"
    by (simp add: Z_def zp' q)
  from cover [unfolded zz] pre
  have "\<forall>z\<in>set (qz nine_query). Z ! 3 \<le> z \<and> z \<le> Z ! 6"
    by (simp add: b)
  then have c: "Z ! 3 \<le> - 45 \<and> - 45 \<le> Z ! 6 \<and> Z ! 3 \<le> - 42 \<and> - 42 \<le> Z ! 6"
    by (simp add: q)
  from width [unfolded zz] pre
  have w: "1 \<le> indz_max_of zbuffer 9 Z (- 42) - indz_min_of zbuffer Z (- 45)"
    by simp
  from c w nine_run zlo zhi rz' b q(1) show ?thesis
    unfolding Z_def by blast
qed

text \<open>
  Without the restriction to the range of the profile the covering fails: a depth below
  the deepest layer centre is below \<open>zmins\<close> at the lower bound, with or without buffer, and
  below every depth of the rows that are returned.
\<close>

theorem general_depth_search_counterexample:
  "snd (get_variables example_env example_reader example_bottom_query False) = Inr example_bottom \<and>
   qz example_bottom_query = [- 95, - 95] \<and>
   res_z example_bottom = ZProfile [[- 90, - 90], [- 70, - 70], [- 50, - 50]] \<and>
   zmins_of [[- 90, - 90], [- 70, - 70], [- 50, - 50], [- 30, - 30], [- 10, - 10]] =
     Inr [- 90, - 70, - 50, - 30, - 10] \<and>
   indz_min_of 0 [- 90, - 70, - 50, - 30, - 10] (- 95) = 0 \<and>
   indz_min_of zbuffer [- 90, - 70, - 50, - 30, - 10] (- 95) = 0 \<and>
   \<not> [- 90, - 70, - 50, - 30, - 10] ! 0 \<le> (- 95 :: real)"
proof -
  have u: "[0..<5] = [0, 1, 2, 3, 4::nat]" "[0..2] = [0, 1, 2::int]" by code_simp+
  have b: "bisect_left [- 90, - 70, - 50, - 30, - 10] (- 95) = 0"
    by (simp add: bisect_left_def bisect_loop.simps)
  have run: "get_variables example_env example_reader example_bottom_query False =
      (example_reader\<lparr>sea_floor_depth := var_h example_dataset\<rparr>, Inr example_bottom)"
    unfolding example_bottom_def
    by (simp add: example_reader_eq model_defs example_bottom_query_def example_deep_query_def
        u b wrap_def load_sea_floor_depth_def general_depth_def pair_index_def example_env_def
        example_vgrid_def depth_search_def zmins_of_def zmaxs_of_def indz_min_of_def
        indz_max_of_def zbuffer_def take_rows_def)
  have rz: "res_z example_bottom = ZProfile [[- 90, - 90], [- 70, - 70], [- 50, - 50]]"
    unfolding example_bottom_def
    by (simp add: example_reader_eq model_defs example_bottom_query_def example_deep_query_def
        u b wrap_def load_sea_floor_depth_def general_depth_def pair_index_def example_env_def
        example_vgrid_def depth_search_def zmins_of_def zmaxs_of_def indz_min_of_def
        indz_max_of_def zbuffer_def take_rows_def)
  from run rz b show ?thesis
    by (simp add: example_bottom_query_def example_deep_query_def zmins_of_def indz_min_of_def
        zbuffer_def)
qed

section \<open>Horizontal indices and coordinates\<close>

lemma floor_index_cell:
  assumes "d \<noteq> 0" and "- (2 ^ 63) \<le> \<lfloor>(c - lo) / d\<rfloor>" and "\<lfloor>(c - lo) / d\<rfloor> < 2 ^ 63"
  shows "floor_index lo d c = \<lfloor>(c - lo) / d\<rfloor>"
    and "of_int (floor_index lo d c) \<le> (c - lo) / d"
    and "(c - lo) / d < of_int (floor_index lo d c) + 1"
proof -
  show eq: "floor_index lo d c = \<lfloor>(c - lo) / d\<rfloor>"
    using assms by (simp add: floor_index_eq)
  show "of_int (floor_index lo d c) \<le> (c - lo) / d"
    "(c - lo) / d < of_int (floor_index lo d c) + 1"
    unfolding eq by linarith+
qed

lemma floor_index_overflow:
  "\<not> (d \<noteq> 0 \<and> - (2 ^ 63) \<le> \<lfloor>(c - lo) / d\<rfloor> \<and> \<lfloor>(c - lo) / d\<rfloor> < 2 ^ 63)
     \<Longrightarrow> floor_index lo d c = - (2 ^ 63)"
  by (subst floor_index_eq, erule if_not_P)

lemma int64_decrement: "- (2 ^ 63) < k \<Longrightarrow> k < 2 ^ 63 \<Longrightarrow> int64 (k - 1) = k - 1"
  by (rule int64_id) simp_all

lemma point_coords_plain:
  assumes "\<forall>i\<in>set ind. - (2 ^ 63) < i \<and> i < 2 ^ 63"
  shows "point_coords lo d ind = map (\<lambda>i. lo + (of_int i - 1) * d) ind"
  using assms by (simp add: point_coords_def int64_decrement)

text \<open>
  Claim C5 (amended).  For every coordinate whose cell number \<open>\<lfloor>(coord - min) / delta\<rfloor>\<close>
  fits a signed 64-bit integer, the horizontal index is this cell number, the cell at or
  below the coordinate; every other coordinate gets the index \<open>- 2 ^ 63\<close>.  In point mode the
  entries \<^verbatim>\<open>x\<close> and \<^verbatim>\<open>y\<close> of the result are \<open>min + (index - 1) * delta\<close> of these
  indices, where the index of a point flagged outside the domain has been set to 0 and the
  decrement is taken in 64-bit arithmetic (it is \<open>index - 1\<close> for every index above
  \<open>- 2 ^ 63\<close>); in block mode they are the index ranges themselves, whose two ends
  \<open>min - buffer\<close> and \<open>max + buffer\<close> are taken in 64-bit arithmetic as well.
\<close>

theorem horizontal_indices:
  assumes "get_variables e r q block = (r', Inr res)"
  shows "(d \<noteq> 0 \<and> - (2 ^ 63) \<le> \<lfloor>(c - lo) / d\<rfloor> \<and> \<lfloor>(c - lo) / d\<rfloor> < 2 ^ 63 \<longrightarrow>
            floor_index lo d c = \<lfloor>(c - lo) / d\<rfloor> \<and>
            of_int (floor_index lo d c) \<le> (c - lo) / d \<and>
            (c - lo) / d < of_int (floor_index lo d c) + 1) \<and>
         (\<not> (d \<noteq> 0 \<and> - (2 ^ 63) \<le> \<lfloor>(c - lo) / d\<rfloor> \<and> \<lfloor>(c - lo) / d\<rfloor> < 2 ^ 63) \<longrightarrow>
            floor_index lo d c = - (2 ^ 63)) \<and>
         (- (2 ^ 63) < k \<and> k < 2 ^ 63 \<longrightarrow> int64 (k - 1) = k - 1) \<and>
         (\<exists>indx indy.
            horizontal r block (outside0 q)
              (map (floor_index (xmin r) (delta_x r)) (qx q))
              (map (floor_index (ymin r) (delta_y r)) (qy q)) = Inr (indx, indy) \<and>
            (block \<longrightarrow>
               res_x res = Indices indx \<and> res_y res = Indices indy \<and>
               indx = np_arange
                  (max 0 (int64 (Min (set (map (floor_index (xmin r) (delta_x r)) (qx q)))
                                 - buffer r)))
                  (min (int64 (Max (set (map (floor_index (xmin r) (delta_x r)) (qx q)))
                               + buffer r))
                       (int (shape (lon r) ! 1))) \<and>
               indy = np_arange
                  (max 0 (int64 (Min (set (map (floor_index (ymin r) (delta_y r)) (qy q)))
                                 - buffer r)))
                  (min (int64 (Max (set (map (floor_index (ymin r) (delta_y r)) (qy q)))
                               + buffer r))
                       (int (shape (lon r) ! 0)))) \<and>
            (\<not> block \<longrightarrow>
               res_x res = Coordinates (map (\<lambda>i. xmin r + of_int (int64 (i - 1)) * delta_x r) indx) \<and>
               res_y res = Coordinates (map (\<lambda>i. ymin r + of_int (int64 (i - 1)) * delta_y r) indy) \<and>
               length indx = length (qx q) \<and> length indy = length (qy q) \<and>
               (\<forall>k<length (qx q). indx ! k =
                  (if k \<in> set (outside0 q) then 0
                   else floor_index (xmin r) (delta_x r) (qx q ! k))) \<and>
               (\<forall>k<length (qy q). indy ! k =
                  (if k \<in> set (outside0 q) then 0
                   else floor_index (ymin r) (delta_y r) (qy q ! k))) \<and>
               ((\<forall>i\<in>set indx. - (2 ^ 63) < i \<and> i < 2 ^ 63) \<longrightarrow>
                  res_x res = Coordinates (map (\<lambda>i. xmin r + (of_int i - 1) * delta_x r) indx)) \<and>
               ((\<forall>i\<in>set indy. - (2 ^ 63) < i \<and> i < 2 ^ 63) \<longrightarrow>
                  res_y res = Coordinates (map (\<lambda>i. ymin r + (of_int i - 1) * delta_y r) indy))))"
proof -
  define ix where "ix = map (floor_index (xmin r) (delta_x r)) (qx q)"
  define iy where "iy = map (floor_index (ymin r) (delta_y r)) (qy q)"
  from assms obtain indz zv indx indy vars an where
    v: "vertical e r ix iy (qz q) = (r', Inr (indz, zv))"
    and h: "horizontal r' block (outside0 q) ix iy = Inr (indx, indy)"
    and res: "res = \<lparr> res_variables = invert_land_mask vars, res_z = zv, res_angle = an,
             res_x = (if block then Indices indx else Coordinates (point_coords (xmin r') (delta_x r') indx)),
             res_y = (if block then Indices indy else Coordinates (point_coords (ymin r') (delta_y r') indy)),
             res_time = nearestTime q \<rparr>"
    unfolding ix_def iy_def by (rule get_variables_InrD)
  from vertical_reader [OF v] have same: "xmin r' = xmin r" "delta_x r' = delta_x r"
    "ymin r' = ymin r" "delta_y r' = delta_y r"
    and h': "horizontal r block (outside0 q) ix iy = Inr (indx, indy)"
    using h by auto
  have blk: "res_x res = Indices indx \<and> res_y res = Indices indy \<and>
      indx = np_arange (max 0 (int64 (Min (set ix) - buffer r)))
                  (min (int64 (Max (set ix) + buffer r)) (int (shape (lon r) ! 1))) \<and>
      indy = np_arange (max 0 (int64 (Min (set iy) - buffer r)))
                  (min (int64 (Max (set iy) + buffer r)) (int (shape (lon r) ! 0)))"
    if b: "block"
  proof -
    from h' b have "horizontal r True (outside0 q) ix iy = Inr (indx, indy)" by simp
    from horizontal_block(4,5) [OF this] res b show ?thesis by simp
  qed
  have pnt: "res_x res = Coordinates (map (\<lambda>i. xmin r + of_int (int64 (i - 1)) * delta_x r) indx) \<and>
      res_y res = Coordinates (map (\<lambda>i. ymin r + of_int (int64 (i - 1)) * delta_y r) indy) \<and>
      length indx = length (qx q) \<and> length indy = length (qy q) \<and>
      (\<forall>k<length (qx q). indx ! k =
         (if k \<in> set (outside0 q) then 0 else floor_index (xmin r) (delta_x r) (qx q ! k))) \<and>
      (\<forall>k<length (qy q). indy ! k =
         (if k \<in> set (outside0 q) then 0 else floor_index (ymin r) (delta_y r) (qy q ! k))) \<and>
      ((\<forall>i\<in>set indx. - (2 ^ 63) < i \<and> i < 2 ^ 63) \<longrightarrow>
         res_x res = Coordinates (map (\<lambda>i. xmin r + (of_int i - 1) * delta_x r) indx)) \<and>
      ((\<forall>i\<in>set indy. - (2 ^ 63) < i \<and> i < 2 ^ 63) \<longrightarrow>
         res_y res = Coordinates (map (\<lambda>i. ymin r + (of_int i - 1) * delta_y r) indy))"
    if b: "\<not> block"
  proof -
    from h' b have hp: "horizontal r False (outside0 q) ix iy = Inr (indx, indy)" by simp
    have l: "length ix = length (qx q)" "length iy = length (qy q)"
      "\<forall>k<length (qx q). ix ! k = floor_index (xmin r) (delta_x r) (qx q ! k)"
      "\<forall>k<length (qy q). iy ! k = floor_index (ymin r) (delta_y r) (qy q ! k)"
      by (simp_all add: ix_def iy_def)
    have rx: "res_x res = Coordinates (point_coords (xmin r) (delta_x r) indx)"
      and ry: "res_y res = Coordinates (point_coords (ymin r) (delta_y r) indy)"
      using res b same by simp_all
    have px: "(\<forall>i\<in>set indx. - (2 ^ 63) < i \<and> i < 2 ^ 63) \<longrightarrow>
         res_x res = Coordinates (map (\<lambda>i. xmin r + (of_int i - 1) * delta_x r) indx)"
      using rx point_coords_plain [of indx "xmin r" "delta_x r"] by simp
    have py: "(\<forall>i\<in>set indy. - (2 ^ 63) < i \<and> i < 2 ^ 63) \<longrightarrow>
         res_y res = Coordinates (map (\<lambda>i. ymin r + (of_int i - 1) * delta_y r) indy)"
      using ry point_coords_plain [of indy "ymin r" "delta_y r"] by simp
    from horizontal_point [OF hp] l rx ry px py show ?thesis
      by (simp add: point_coords_def)
  qed
  have cell: "d \<noteq> 0 \<and> - (2 ^ 63) \<le> \<lfloor>(c - lo) / d\<rfloor> \<and> \<lfloor>(c - lo) / d\<rfloor> < 2 ^ 63 \<longrightarrow>
            floor_index lo d c = \<lfloor>(c - lo) / d\<rfloor> \<and>
            of_int (floor_index lo d c) \<le> (c - lo) / d \<and>
            (c - lo) / d < of_int (floor_index lo d c) + 1"
    using floor_index_cell [of d c lo] by blast
  have over: "\<not> (d \<noteq> 0 \<and> - (2 ^ 63) \<le> \<lfloor>(c - lo) / d\<rfloor> \<and> \<lfloor>(c - lo) / d\<rfloor> < 2 ^ 63) \<longrightarrow>
            floor_index lo d c = - (2 ^ 63)"
    using floor_index_overflow [of d c lo] by blast
  have dec: "- (2 ^ 63) < k \<and> k < 2 ^ 63 \<longrightarrow> int64 (k - 1) = k - 1"
    using int64_decrement [of k] by blast
  have hor: "\<exists>indx indy.
      horizontal r block (outside0 q) ix iy = Inr (indx, indy) \<and>
      (block \<longrightarrow>
         res_x res = Indices indx \<and> res_y res = Indices indy \<and>
         indx = np_arange (max 0 (int64 (Min (set ix) - buffer r)))
                  (min (int64 (Max (set ix) + buffer r)) (int (shape (lon r) ! 1))) \<and>
         indy = np_arange (max 0 (int64 (Min (set iy) - buffer r)))
                  (min (int64 (Max (set iy) + buffer r)) (int (shape (lon r) ! 0)))) \<and>
      (\<not> block \<longrightarrow>
         res_x res = Coordinates (map (\<lambda>i. xmin r + of_int (int64 (i - 1)) * delta_x r) indx) \<and>
         res_y res = Coordinates (map (\<lambda>i. ymin r + of_int (int64 (i - 1)) * delta_y r) indy) \<and>
         length indx = length (qx q) \<and> length indy = length (qy q) \<and>
         (\<forall>k<length (qx q). indx ! k =
            (if k \<in> set (outside0 q) then 0 else floor_index (xmin r) (delta_x r) (qx q ! k))) \<and>
         (\<forall>k<length (qy q). indy ! k =
            (if k \<in> set (outside0 q) then 0 else floor_index (ymin r) (delta_y r) (qy q ! k))) \<and>
         ((\<forall>i\<in>set indx. - (2 ^ 63) < i \<and> i < 2 ^ 63) \<longrightarrow>
            res_x res = Coordinates (map (\<lambda>i. xmin r + (of_int i - 1) * delta_x r) indx)) \<and>
         ((\<forall>i\<in>set indy. - (2 ^ 63) < i \<and> i < 2 ^ 63) \<longrightarrow>
            res_y res = Coordinates (map (\<lambda>i. ymin r + (of_int i - 1) * delta_y r) indy)))"
    apply (rule exI [of _ indx], rule exI [of _ indy])
    apply (intro conjI)
    subgoal by (rule h')
    subgoal by (rule impI, rule blk, assumption)
    subgoal by (rule impI, rule pnt, assumption)
    done
  show ?thesis
    unfolding ix_def [symmetric] iy_def [symmetric]
    using cell over dec hor by (intro conjI)
qed

theorem horizontal_indices_witness:
  "get_variables example_env example_reader example_query False =
     (example_reader, Inr example_result) \<and>
   floor_index 0 1 (3/2) = 1 \<and> floor_index 0 1 7 = 7 \<and>
   floor_index 0 1 (10 ^ 30) = - (2 ^ 63) \<and>
   res_x example_result = Coordinates [0, 6] \<and> res_y example_result = Coordinates [1, 3] \<and>
   get_variables example_env example_reader example_query True =
     (example_reader, Inr example_block) \<and>
   res_x example_block = Indices [0, 1, 2, 3, 4, 5, 6, 7, 8] \<and>
   res_y example_block = Indices [0, 1, 2, 3, 4, 5]"
proof -
  have r: "xmin example_reader = 0" "delta_x example_reader = 1" "ymin example_reader = 0"
    "delta_y example_reader = 1" "buffer example_reader = 2" "lon example_reader = example_grid"
    by (simp_all add: example_reader_eq)
  have q: "qx example_query = [3/2, 7]" "qy example_query = [5/2, 4]" "outside0 example_query = []"
    by (simp_all add: example_query_def)
  have f: "floor_index 0 1 (3/2) = 1" "floor_index 0 1 7 = 7"
    "floor_index 0 1 (5/2) = 2" "floor_index 0 1 4 = 4"
    using horizontal_indices [OF example_run, of 1 "3/2" 0]
      horizontal_indices [OF example_run, of 1 7 0]
      horizontal_indices [OF example_run, of 1 "5/2" 0]
      horizontal_indices [OF example_run, of 1 4 0]
    by simp_all
  have far: "\<not> ((1 :: real) \<noteq> 0 \<and> - (2 ^ 63) \<le> \<lfloor>((10 :: real) ^ 30 - 0) / 1\<rfloor> \<and>
       \<lfloor>((10 :: real) ^ 30 - 0) / 1\<rfloor> < 2 ^ 63)"
    by simp
  have o: "floor_index 0 1 (10 ^ 30) = - (2 ^ 63)"
    using horizontal_indices [OF example_run, of 1 "10 ^ 30" 0] far by blast
  have p: "res_x example_result = Coordinates [0, 6] \<and> res_y example_result = Coordinates [1, 3]"
    using horizontal_indices [OF example_run, of 1 0 0 1]
    by (auto simp: r q f horizontal_def assign_at_def int64_id)
  have u: "[0..8] = [0, 1, 2, 3, 4, 5, 6, 7, 8 :: int]" "[0..5] = [0, 1, 2, 3, 4, 5 :: int]"
    by code_simp+
  have b: "res_x example_block = Indices [0, 1, 2, 3, 4, 5, 6, 7, 8] \<and>
           res_y example_block = Indices [0, 1, 2, 3, 4, 5]"
    using u horizontal_indices [OF example_block_run, of 1 0 0 1]
    by (auto simp: r q f np_arange_def example_grid_def int64_id)
  from p b f o example_run example_block_run show ?thesis by simp
qed

text \<open>
  A coordinate beyond the range of a 64-bit integer does not get its cell number: the cast
  gives \<open>- 2 ^ 63\<close>, the lower end \<open>min - buffer\<close> of the block wraps around to \<open>2 ^ 63 - 2\<close>,
  and the range of columns is empty.
\<close>

theorem horizontal_indices_counterexample:
  "floor_index 0 1 (10 ^ 30) = - (2 ^ 63) \<and> \<lfloor>((10 :: real) ^ 30 - 0) / 1\<rfloor> = 10 ^ 30 \<and>
   qx example_far_query = [10 ^ 30, 5] \<and>
   get_variables example_env example_reader example_far_query True =
     (example_reader, Inr example_far) \<and>
   res_x example_far = Indices []"
proof -
  have f: "floor_index 0 1 (10 ^ 30) = - (2 ^ 63)"
    by (simp add: floor_index_eq)
  have u: "[0..5] = [0, 1, 2, 3, 4, 5 :: int]" by code_simp
  have run: "get_variables example_env example_reader example_far_query True =
      (example_reader, Inr example_far)"
    unfolding example_far_def
    by (simp add: example_reader_eq model_defs int64_def example_far_query_def
        int_min_Inr int_max_Inr list_all_iff u)
  have x: "res_x example_far = Indices []"
    unfolding example_far_def
    by (simp add: example_reader_eq model_defs int64_def example_far_query_def
        int_min_Inr int_max_Inr list_all_iff u)
  from f run x show ?thesis
    by (simp add: example_far_query_def example_query_def)
qed

section \<open>The land mask\<close>







end
